theory Spec2Isabelle
  imports Complex_Main
begin

section \<open>The schema dataset\<close>

text \<open>
  The dataset of \<^verbatim>\<open>data.js\<close> is a list of objects. Only the fields that the
  diagram, the audit and the reference lookup read are kept. A field that an object
  may lack (\<^verbatim>\<open>columns\<close>, \<^verbatim>\<open>indexes\<close>, \<^verbatim>\<open>fk\<close>) is an option:
  \<open>None\<close> is JavaScript's \<^verbatim>\<open>undefined\<close>.
\<close>

record fk =
  fk_table :: string
  fk_column :: string

record column =
  col_name :: string
  col_fk :: "fk option"

record index =
  idx_name :: string
  idx_columns :: "string list option"

record schema_object =
  obj_key :: string
  obj_type :: string
  obj_name :: string
  obj_columns :: "column list option"
  obj_indexes :: "index list option"

text \<open>\<^verbatim>\<open>xs || []\<close> on a value that is an array or \<^verbatim>\<open>undefined\<close> (an array,
  even an empty one, is truthy).\<close>

definition orEmpty :: "'a list option \<Rightarrow> 'a list" where
  "orEmpty xs = (case xs of None \<Rightarrow> [] | Some ys \<Rightarrow> ys)"

subsection \<open>Lookups by key and by type\<close>

text \<open>\<^verbatim>\<open>const byKey = new Map(objects.map(o => [o.key, o]));\<close> A later entry with the
  same key replaces an earlier one.\<close>

fun byKey_loop ::
  "(string \<times> schema_object) list \<Rightarrow> (string \<rightharpoonup> schema_object) \<Rightarrow> (string \<rightharpoonup> schema_object)"
where
  "byKey_loop [] m = m"
| "byKey_loop ((k, v) # entries) m = byKey_loop entries (m(k \<mapsto> v))"

definition byKey :: "schema_object list \<Rightarrow> (string \<rightharpoonup> schema_object)" where
  "byKey objects = byKey_loop (map (\<lambda>ob. (obj_key ob, ob)) objects) Map.empty"

text \<open>
  \<^verbatim>\<open>
  const byType = new Map();
  for (const o of objects) {
    if (!byType.has(o.type)) byType.set(o.type, []);
    byType.get(o.type).push(o);
  }
  \<close>
\<close>

fun byType_loop ::
  "schema_object list \<Rightarrow> (string \<rightharpoonup> schema_object list) \<Rightarrow> (string \<rightharpoonup> schema_object list)"
where
  "byType_loop [] m = m"
| "byType_loop (ob # obs) m =
     (let m1 = (if m (obj_type ob) = None then m(obj_type ob \<mapsto> []) else m) in
      byType_loop obs
        (case m1 (obj_type ob) of
           None \<Rightarrow> m1
         | Some bucket \<Rightarrow> m1(obj_type ob \<mapsto> bucket @ [ob])))"

definition byType :: "schema_object list \<Rightarrow> (string \<rightharpoonup> schema_object list)" where
  "byType objects = byType_loop objects Map.empty"

text \<open>\<^verbatim>\<open>byType.get("table") || []\<close>\<close>

definition tablesByType :: "schema_object list \<Rightarrow> schema_object list" where
  "tablesByType objects = orEmpty (byType objects ''table'')"

text \<open>\<^verbatim>\<open>const tables = objects.filter(o => o.type === "table");\<close>\<close>

definition tables :: "schema_object list \<Rightarrow> schema_object list" where
  "tables objects = filter (\<lambda>ob. obj_type ob = ''table'') objects"

section \<open>The foreign key index audit\<close>

record finding =
  f_table :: string
  f_column :: string
  f_referencedTable :: string
  f_suggestion :: string

text \<open>
  \<^verbatim>\<open>
  const hasIndex = (tbl.indexes || []).some(idx => {
    const idxCols = idx.columns || [];
    return idxCols.length > 0 && idxCols[0] === fkColName;
  });
  \<close>
\<close>

definition hasIndex :: "schema_object \<Rightarrow> string \<Rightarrow> bool" where
  "hasIndex tbl fkColName =
     list_ex (\<lambda>idx. let idxCols = orEmpty (idx_columns idx) in
                     length idxCols > 0 \<and> idxCols ! 0 = fkColName)
       (orEmpty (obj_indexes tbl))"

text \<open>The object pushed onto \<^verbatim>\<open>fkIndexIssues\<close> for a column whose foreign key is \<open>k\<close>.\<close>

definition issue :: "schema_object \<Rightarrow> column \<Rightarrow> fk \<Rightarrow> finding" where
  "issue tbl col k =
     \<lparr> f_table = obj_name tbl,
       f_column = col_name col,
       f_referencedTable = fk_table k,
       f_suggestion = ''CREATE INDEX idx_'' @ obj_name tbl @ ''_'' @ col_name col @
                      '' ON '' @ obj_name tbl @ ''('' @ col_name col @ '');'' \<rparr>"

text \<open>The inner loop over \<^verbatim>\<open>tbl.columns\<close>; the third argument is \<^verbatim>\<open>fkIndexIssues\<close>.\<close>

fun auditColumns :: "schema_object \<Rightarrow> column list \<Rightarrow> finding list \<Rightarrow> finding list" where
  "auditColumns tbl [] issues = issues"
| "auditColumns tbl (col # cols) issues =
     (case col_fk col of
        None \<Rightarrow> auditColumns tbl cols issues
      | Some k \<Rightarrow>
          if \<not> hasIndex tbl (col_name col)
          then auditColumns tbl cols (issues @ [issue tbl col k])
          else auditColumns tbl cols issues)"

text \<open>The outer loop over the tables; a table without \<^verbatim>\<open>columns\<close> is skipped.\<close>

fun auditTables :: "schema_object list \<Rightarrow> finding list \<Rightarrow> finding list" where
  "auditTables [] issues = issues"
| "auditTables (tbl # tbls) issues =
     (case obj_columns tbl of
        None \<Rightarrow> auditTables tbls issues
      | Some cols \<Rightarrow> auditTables tbls (auditColumns tbl cols issues))"

definition auditFkIndexes :: "schema_object list \<Rightarrow> finding list" where
  "auditFkIndexes objects = auditTables (tablesByType objects) []"

section \<open>The diagram: layout and edges\<close>

text \<open>
  \<^verbatim>\<open>
  const NODE_W = 200;  const NODE_PAD = 40;  const COL_COUNT = 6;  const ROW_HEIGHT = 160;
  tables.forEach((t, i) => {
    const col = i % COL_COUNT;
    const row = Math.floor(i / COL_COUNT);
    nodePos.set(t.key, { x: col * (NODE_W + NODE_PAD) + 50, y: row * ROW_HEIGHT + 50 });
  });
  \<close>
  The index \<open>i\<close> is a natural number, so \<^verbatim>\<open>Math.floor(i / COL_COUNT)\<close> is \<open>i div COL_COUNT\<close>.
\<close>

definition NODE_W :: int where "NODE_W = 200"

definition NODE_PAD :: int where "NODE_PAD = 40"

definition COL_COUNT :: nat where "COL_COUNT = 6"

definition ROW_HEIGHT :: int where "ROW_HEIGHT = 160"

record pos =
  pos_x :: int
  pos_y :: int

definition gridPos :: "nat \<Rightarrow> pos" where
  "gridPos i =
     (let col = i mod COL_COUNT; row = i div COL_COUNT in
      \<lparr> pos_x = int col * (NODE_W + NODE_PAD) + 50, pos_y = int row * ROW_HEIGHT + 50 \<rparr>)"

fun nodePos_loop :: "schema_object list \<Rightarrow> nat \<Rightarrow> (string \<rightharpoonup> pos) \<Rightarrow> (string \<rightharpoonup> pos)" where
  "nodePos_loop [] i m = m"
| "nodePos_loop (t # ts) i m = nodePos_loop ts (Suc i) (m(obj_key t \<mapsto> gridPos i))"

definition nodePos :: "schema_object list \<Rightarrow> (string \<rightharpoonup> pos)" where
  "nodePos objects = nodePos_loop (tables objects) 0 Map.empty"

record edge =
  e_from :: string
  e_to :: string
  e_label :: string

text \<open>
  \<^verbatim>\<open>
  for (const t of tables) {
    if (!t.columns) continue;
    for (const c of t.columns) {
      if (c.fk) {
        const target = objects.find(o => o.type === "table" && o.name === c.fk.table);
        if (target) edges.push({ from: t.key, to: target.key, label: c.name });
      }
    }
  }
  \<close>
\<close>

fun edgesColumns ::
  "schema_object list \<Rightarrow> schema_object \<Rightarrow> column list \<Rightarrow> edge list \<Rightarrow> edge list"
where
  "edgesColumns objects t [] es = es"
| "edgesColumns objects t (c # cs) es =
     (case col_fk c of
        None \<Rightarrow> edgesColumns objects t cs es
      | Some k \<Rightarrow>
          (case List.find (\<lambda>ob. obj_type ob = ''table'' \<and> obj_name ob = fk_table k) objects of
             None \<Rightarrow> edgesColumns objects t cs es
           | Some target \<Rightarrow>
               edgesColumns objects t cs
                 (es @ [\<lparr> e_from = obj_key t, e_to = obj_key target, e_label = col_name c \<rparr>])))"

fun edgesTables :: "schema_object list \<Rightarrow> schema_object list \<Rightarrow> edge list \<Rightarrow> edge list" where
  "edgesTables objects [] es = es"
| "edgesTables objects (t # ts) es =
     (case obj_columns t of
        None \<Rightarrow> edgesTables objects ts es
      | Some cs \<Rightarrow> edgesTables objects ts (edgesColumns objects t cs es))"

definition edges :: "schema_object list \<Rightarrow> edge list" where
  "edges objects = edgesTables objects (tables objects) []"

section \<open>Interaction state and the rendered diagram\<close>

record point =
  pt_x :: real
  pt_y :: real

text \<open>The \<^verbatim>\<open>state\<close> object; \<^verbatim>\<open>null\<close> is \<open>None\<close>. The field \<^verbatim>\<open>filter\<close> is
  \<open>filter_text\<close> here.\<close>

record state =
  view :: string
  filter_text :: string
  typeFilter :: string
  domainFilter :: "string option"
  selected :: "string option"
  hovered :: "string option"
  showEdges :: string
  isolateMode :: bool
  zoom :: real
  pan :: point

definition initial_state :: state where
  "initial_state =
     \<lparr> view = ''diagram'', filter_text = [], typeFilter = ''all'', domainFilter = None,
       selected = None, hovered = None, showEdges = ''focus'', isolateMode = False,
       zoom = 1, pan = \<lparr> pt_x = 0, pt_y = 0 \<rparr> \<rparr>"

text \<open>
  JavaScript's truthiness of a value that is \<^verbatim>\<open>null\<close> or a string: \<^verbatim>\<open>null\<close> and the
  empty string are falsy. The source tests \<^verbatim>\<open>state.selected\<close> and \<^verbatim>\<open>activeKey\<close> this way.
\<close>

definition truthy :: "string option \<Rightarrow> bool" where
  "truthy v = (case v of None \<Rightarrow> False | Some s \<Rightarrow> s \<noteq> [])"

text \<open>
  What \<^verbatim>\<open>renderDiagram\<close> puts under \<^verbatim>\<open>#viewport\<close>: one \<^verbatim>\<open>g.diagram-node\<close> for each
  table and one \<^verbatim>\<open>path.edge-line\<close> for each edge, with the attributes and classes that
  the interaction code reads and writes.
\<close>

record node_el =
  data_key :: string
  translate :: pos
  rect_selected :: bool
  node_is_dim :: bool

record edge_el =
  data_from :: string
  data_to :: string
  is_highlight :: bool
  marker_end :: string
  opacity :: string
  edge_is_dim :: bool

record page =
  nodes :: "node_el list"
  edge_lines :: "edge_el list"

subsection \<open>Edge visibility and highlighting\<close>

text \<open>\<^verbatim>\<open>const activeKey = state.selected || state.hovered;\<close>\<close>

definition activeKey :: "state \<Rightarrow> string option" where
  "activeKey st = (if truthy (selected st) then selected st else hovered st)"

text \<open>\<^verbatim>\<open>const isHighlighted = activeKey && (from === activeKey || to === activeKey);\<close>
  read as a condition.\<close>

definition isHighlighted :: "string option \<Rightarrow> string \<Rightarrow> string \<Rightarrow> bool" where
  "isHighlighted active from_key to_key =
     (truthy active \<and> (Some from_key = active \<or> Some to_key = active))"

text \<open>The body of the loop of \<^verbatim>\<open>updateEdgeVisibility\<close> over the edge lines.\<close>

definition updateEdgeLine :: "state \<Rightarrow> string option \<Rightarrow> edge_el \<Rightarrow> edge_el" where
  "updateEdgeLine st active line =
     (let hl = isHighlighted active (data_from line) (data_to line);
          line1 = (if hl then line\<lparr> is_highlight := True, marker_end := ''url(#arrowHi)'' \<rparr>
                   else line\<lparr> is_highlight := False, marker_end := ''url(#arrow)'' \<rparr>)
      in if showEdges st = ''off'' then line1\<lparr> opacity := ''0'' \<rparr>
         else if showEdges st = ''all'' then line1\<lparr> opacity := (if hl then ''1'' else ''0.4'') \<rparr>
         else line1\<lparr> opacity := (if hl then ''1'' else ''0'') \<rparr>)"

fun updateEdgeLines :: "state \<Rightarrow> string option \<Rightarrow> edge_el list \<Rightarrow> edge_el list" where
  "updateEdgeLines st active [] = []"
| "updateEdgeLines st active (line # rest) =
     updateEdgeLine st active line # updateEdgeLines st active rest"

definition updateEdgeVisibility :: "state \<Rightarrow> page \<Rightarrow> page" where
  "updateEdgeVisibility st pg =
     pg\<lparr> edge_lines := updateEdgeLines st (activeKey st) (edge_lines pg) \<rparr>"

subsection \<open>Isolate mode\<close>

text \<open>
  \<^verbatim>\<open>
  function getNeighborKeys(key) {
    const neighbors = new Set();
    neighbors.add(key);
    for (const e of edges) {
      if (e.from === key) neighbors.add(e.to);
      if (e.to === key) neighbors.add(e.from);
    }
    return neighbors;
  }
  \<close>
  The global \<^verbatim>\<open>edges\<close> is the first argument.
\<close>

fun neighbors_loop :: "string \<Rightarrow> edge list \<Rightarrow> string set \<Rightarrow> string set" where
  "neighbors_loop k [] neighbors = neighbors"
| "neighbors_loop k (e # es) neighbors =
     (let n1 = (if e_from e = k then insert (e_to e) neighbors else neighbors);
          n2 = (if e_to e = k then insert (e_from e) n1 else n1)
      in neighbors_loop k es n2)"

definition getNeighborKeys :: "edge list \<Rightarrow> string \<Rightarrow> string set" where
  "getNeighborKeys es k = neighbors_loop k es (insert k {})"

fun dimNodes :: "string set \<Rightarrow> node_el list \<Rightarrow> node_el list" where
  "dimNodes visibleKeys [] = []"
| "dimNodes visibleKeys (node # rest) =
     (if data_key node \<in> visibleKeys then node\<lparr> node_is_dim := False \<rparr>
      else node\<lparr> node_is_dim := True \<rparr>) # dimNodes visibleKeys rest"

fun dimEdges :: "string set \<Rightarrow> edge_el list \<Rightarrow> edge_el list" where
  "dimEdges visibleKeys [] = []"
| "dimEdges visibleKeys (line # rest) =
     (if data_from line \<in> visibleKeys \<and> data_to line \<in> visibleKeys
      then line\<lparr> edge_is_dim := False \<rparr>
      else line\<lparr> edge_is_dim := True \<rparr>) # dimEdges visibleKeys rest"

text \<open>
  \<^verbatim>\<open>applyIsolateMode\<close>. After the guard \<^verbatim>\<open>!state.isolateMode || !state.selected\<close>
  the selected key is a non-empty string, so the \<open>None\<close> case below is never reached.
\<close>

definition applyIsolateMode :: "edge list \<Rightarrow> state \<Rightarrow> page \<Rightarrow> page" where
  "applyIsolateMode es st pg =
     (if \<not> isolateMode st \<or> \<not> truthy (selected st)
      then pg\<lparr> nodes := map (\<lambda>n. n\<lparr> node_is_dim := False \<rparr>) (nodes pg),
               edge_lines := map (\<lambda>l. l\<lparr> edge_is_dim := False \<rparr>) (edge_lines pg) \<rparr>
      else (case selected st of
              None \<Rightarrow> pg
            | Some k \<Rightarrow>
                (let visibleKeys = getNeighborKeys es k in
                 pg\<lparr> nodes := dimNodes visibleKeys (nodes pg),
                     edge_lines := dimEdges visibleKeys (edge_lines pg) \<rparr>)))"

subsection \<open>Rendering and the event handlers\<close>

text \<open>
  \<^verbatim>\<open>renderDiagram\<close>, for a document that has \<^verbatim>\<open>#schemaSvg\<close> and \<^verbatim>\<open>#viewport\<close>: the
  viewport is emptied, a path is appended for each edge whose two ends have a position,
  a group for each table that has a position, then \<^verbatim>\<open>updateEdgeVisibility\<close> and
  \<^verbatim>\<open>applyIsolateMode\<close> run. The geometry of the paths, the texts of a node and the
  viewport's transform are left out.
\<close>

definition renderEdge :: "(string \<rightharpoonup> pos) \<Rightarrow> edge \<Rightarrow> edge_el list" where
  "renderEdge np e =
     (case np (e_from e) of
        None \<Rightarrow> []
      | Some p1 \<Rightarrow>
          (case np (e_to e) of
             None \<Rightarrow> []
           | Some p2 \<Rightarrow>
               [\<lparr> data_from = e_from e, data_to = e_to e, is_highlight = False,
                   marker_end = ''url(#arrow)'', opacity = [], edge_is_dim = False \<rparr>]))"

definition renderNode :: "(string \<rightharpoonup> pos) \<Rightarrow> state \<Rightarrow> schema_object \<Rightarrow> node_el list" where
  "renderNode np st t =
     (case np (obj_key t) of
        None \<Rightarrow> []
      | Some p \<Rightarrow>
          [\<lparr> data_key = obj_key t, translate = p,
              rect_selected = (selected st = Some (obj_key t)), node_is_dim = False \<rparr>])"

definition renderDiagram :: "schema_object list \<Rightarrow> state \<Rightarrow> page" where
  "renderDiagram objects st =
     applyIsolateMode (edges objects) st
       (updateEdgeVisibility st
          \<lparr> nodes = concat (map (renderNode (nodePos objects) st) (tables objects)),
            edge_lines = concat (map (renderEdge (nodePos objects)) (edges objects)) \<rparr>)"

text \<open>\<^verbatim>\<open>rect.classList.toggle("selected", node.dataset.key === state.selected)\<close>\<close>

definition updateNodeSelection :: "state \<Rightarrow> page \<Rightarrow> page" where
  "updateNodeSelection st pg =
     pg\<lparr> nodes := map (\<lambda>n. n\<lparr> rect_selected := (Some (data_key n) = selected st) \<rparr>) (nodes pg) \<rparr>"

text \<open>
  The handlers act on the state and on the rendered diagram. The sidebar, the inspector
  and the docs and glossary panes are other parts of the document; the functions that
  draw them (\<^verbatim>\<open>renderSidebar\<close>, \<^verbatim>\<open>renderInspector\<close>, \<^verbatim>\<open>renderDocs\<close>,
  \<^verbatim>\<open>renderGlossary\<close>) assign no field of \<^verbatim>\<open>state\<close> and touch nothing under the viewport.
\<close>

definition selectObject ::
  "schema_object list \<Rightarrow> string option \<Rightarrow> state \<times> page \<Rightarrow> state \<times> page"
where
  "selectObject objects k w =
     (let st = (fst w)\<lparr> selected := k \<rparr> in
      (st, applyIsolateMode (edges objects) st
             (updateEdgeVisibility st (updateNodeSelection st (snd w)))))"

definition hoverObject :: "string option \<Rightarrow> state \<times> page \<Rightarrow> state \<times> page" where
  "hoverObject k w =
     (let st = (fst w)\<lparr> hovered := k \<rparr> in (st, updateEdgeVisibility st (snd w)))"

definition setView :: "schema_object list \<Rightarrow> string \<Rightarrow> state \<times> page \<Rightarrow> state \<times> page" where
  "setView objects v w =
     (let st = (fst w)\<lparr> view := v \<rparr> in
      (st, if v = ''diagram'' then renderDiagram objects st else snd w))"

text \<open>The \<^verbatim>\<open>change\<close> handler of the isolate checkbox; \<open>checked\<close> is the checkbox's value.\<close>

definition isolateChange ::
  "schema_object list \<Rightarrow> bool \<Rightarrow> state \<times> page \<Rightarrow> state \<times> page"
where
  "isolateChange objects checked w =
     (let st = (fst w)\<lparr> isolateMode := checked \<rparr> in
      (st, applyIsolateMode (edges objects) st (snd w)))"

text \<open>
  The \<^verbatim>\<open>keydown\<close> handler; \<open>k\<close> is \<^verbatim>\<open>e.key\<close>.
  \<^verbatim>\<open>
  if (e.key === "Escape") {
    state.selected = null;  state.hovered = null;
    renderSidebar(); updateNodeSelection(); updateEdgeVisibility(); applyIsolateMode();
    renderInspector();
  }
  if (e.key === "1") setView("diagram");
  if (e.key === "2") setView("docs");
  if (e.key === "3") setView("glossary");
  \<close>
\<close>

definition keydown :: "schema_object list \<Rightarrow> string \<Rightarrow> state \<times> page \<Rightarrow> state \<times> page" where
  "keydown objects k w =
     (let w0 = (if k = ''Escape''
                then (let st = (fst w)\<lparr> selected := None, hovered := None \<rparr> in
                      (st, applyIsolateMode (edges objects) st
                             (updateEdgeVisibility st (updateNodeSelection st (snd w)))))
                else w);
          w1 = (if k = ''1'' then setView objects ''diagram'' w0 else w0);
          w2 = (if k = ''2'' then setView objects ''docs'' w1 else w1);
          w3 = (if k = ''3'' then setView objects ''glossary'' w2 else w2)
      in w3)"

text \<open>
  \<^verbatim>\<open>
  function cycleEdgeMode() {
    const modes = ["focus", "all", "off"];
    const idx = modes.indexOf(state.showEdges);
    state.showEdges = modes[(idx + 1) % modes.length];
    ...
    updateEdgeVisibility();
  }
  \<close>
  \<^verbatim>\<open>indexOf\<close> gives \<open>-1\<close> for a string that is not in the array.
\<close>

fun indexOf :: "string list \<Rightarrow> string \<Rightarrow> int" where
  "indexOf [] s = -1"
| "indexOf (x # xs) s =
     (if x = s then 0 else (let i = indexOf xs s in if i < 0 then -1 else i + 1))"

definition cycleEdgeMode :: "state \<times> page \<Rightarrow> state \<times> page" where
  "cycleEdgeMode w =
     (let modes = [''focus'', ''all'', ''off''];
          idx = indexOf modes (showEdges (fst w));
          st = (fst w)\<lparr> showEdges := modes ! nat ((idx + 1) mod int (length modes)) \<rparr>
      in (st, updateEdgeVisibility st (snd w)))"

section \<open>Startup\<close>

text \<open>
  What \<^verbatim>\<open>window.SCHEMA\<close> may hold before anything is known about it: any JavaScript
  value. An object is the list of its properties.
\<close>

datatype jsval =
    JUndefined
  | JNull
  | JBool bool
  | JNum int
  | JStr string
  | JArr "jsval list"
  | JObj "(string \<times> jsval) list"

fun js_truthy :: "jsval \<Rightarrow> bool" where
  "js_truthy JUndefined = False"
| "js_truthy JNull = False"
| "js_truthy (JBool b) = b"
| "js_truthy (JNum n) = (n \<noteq> 0)"
| "js_truthy (JStr s) = (s \<noteq> [])"
| "js_truthy (JArr xs) = True"
| "js_truthy (JObj ps) = True"

text \<open>Reading a property of a truthy value: a value that has no such property gives
  \<^verbatim>\<open>undefined\<close>.\<close>

fun js_get :: "jsval \<Rightarrow> string \<Rightarrow> jsval" where
  "js_get (JObj ps) p = (case map_of ps p of None \<Rightarrow> JUndefined | Some v \<Rightarrow> v)"
| "js_get v p = JUndefined"

fun isArray :: "jsval \<Rightarrow> bool" where
  "isArray (JArr xs) = True"
| "isArray v = False"

datatype startup = Refused string | Proceeds

text \<open>
  \<^verbatim>\<open>
  if (!window.SCHEMA || !Array.isArray(window.SCHEMA.objects)) {
    console.error("SCHEMA not found. Make sure data.js loads before app.js.");
    return;
  }
  \<close>
  \<open>Refused msg\<close>: \<open>msg\<close> is written with \<^verbatim>\<open>console.error\<close> and the program returns
  before anything is built or drawn. \<open>Proceeds\<close>: the program goes on past the guard.
\<close>

definition startupGuard :: "jsval \<Rightarrow> startup" where
  "startupGuard schema =
     (if \<not> js_truthy schema \<or> \<not> isArray (js_get schema ''objects'')
      then Refused ''SCHEMA not found. Make sure data.js loads before app.js.''
      else Proceeds)"

text \<open>
  What follows the guard first:
  \<^verbatim>\<open>
  const objects = SCHEMA.objects;
  const byKey = new Map(objects.map(o => [o.key, o]));
  const byType = new Map();
  for (const o of objects) { if (!byType.has(o.type)) byType.set(o.type, []); ... }
  \<close>
  Reading \<^verbatim>\<open>o.key\<close> or \<^verbatim>\<open>o.type\<close> throws a \<^verbatim>\<open>TypeError\<close> when \<^verbatim>\<open>o\<close> is \<^verbatim>\<open>null\<close> or
  \<^verbatim>\<open>undefined\<close>, and gives a value or \<^verbatim>\<open>undefined\<close> for every other entry. Nothing catches
  the error, so the program stops there, without a message of its own.
\<close>

fun readThrows :: "jsval \<Rightarrow> bool" where
  "readThrows JUndefined = True"
| "readThrows JNull = True"
| "readThrows v = False"

datatype startup_result = ConfigError string | UncaughtTypeError | LookupsBuilt

text \<open>
  The start of the program up to the two lookups. \<open>ConfigError msg\<close>: the guard wrote
  \<open>msg\<close> and returned. \<open>UncaughtTypeError\<close>: the guard was passed and building the lookups
  threw. \<open>LookupsBuilt\<close>: the guard was passed and both lookups were built. After the
  guard \<^verbatim>\<open>SCHEMA.objects\<close> is an array, so the last case below is never reached.
\<close>

definition startup :: "jsval \<Rightarrow> startup_result" where
  "startup schema =
     (case startupGuard schema of
        Refused msg \<Rightarrow> ConfigError msg
      | Proceeds \<Rightarrow>
          (case js_get schema ''objects'' of
             JArr entries \<Rightarrow> if list_ex readThrows entries then UncaughtTypeError else LookupsBuilt
           | _ \<Rightarrow> UncaughtTypeError))"

text \<open>An entry of the dataset has a name and a type when it is an object with both
  properties.\<close>

definition hasNameAndType :: "jsval \<Rightarrow> bool" where
  "hasNameAndType entry =
     (case entry of
        JObj ps \<Rightarrow> map_of ps ''name'' \<noteq> None \<and> map_of ps ''type'' \<noteq> None
      | _ \<Rightarrow> False)"

section \<open>Incoming references\<close>

record reference =
  ref_table :: string
  ref_column :: string

text \<open>
  \<^verbatim>\<open>
  function findIncomingReferences(tableName) {
    const refs = [];
    const tbls = byType.get("table") || [];
    for (const tbl of tbls) {
      if (!tbl.columns) continue;
      for (const col of tbl.columns) {
        if (col.fk && col.fk.table === tableName)
          refs.push({ table: tbl.name, column: col.name });
      }
    }
    return refs;
  }
  \<close>
\<close>

fun incomingColumns ::
  "string \<Rightarrow> schema_object \<Rightarrow> column list \<Rightarrow> reference list \<Rightarrow> reference list"
where
  "incomingColumns tableName tbl [] refs = refs"
| "incomingColumns tableName tbl (col # cols) refs =
     (case col_fk col of
        None \<Rightarrow> incomingColumns tableName tbl cols refs
      | Some k \<Rightarrow>
          if fk_table k = tableName
          then incomingColumns tableName tbl cols
                 (refs @ [\<lparr> ref_table = obj_name tbl, ref_column = col_name col \<rparr>])
          else incomingColumns tableName tbl cols refs)"

fun incomingTables :: "string \<Rightarrow> schema_object list \<Rightarrow> reference list \<Rightarrow> reference list" where
  "incomingTables tableName [] refs = refs"
| "incomingTables tableName (tbl # tbls) refs =
     (case obj_columns tbl of
        None \<Rightarrow> incomingTables tableName tbls refs
      | Some cols \<Rightarrow> incomingTables tableName tbls (incomingColumns tableName tbl cols refs))"

definition findIncomingReferences :: "schema_object list \<Rightarrow> string \<Rightarrow> reference list" where
  "findIncomingReferences objects tableName = incomingTables tableName (tablesByType objects) []"

text \<open>
  The same lookup as the specification describes it, derived from the edge list: the
  edges whose \<^verbatim>\<open>to\<close> is the given key, each read as the name of its source table
  (found by key) and its label.
\<close>

definition referencesFromEdges :: "schema_object list \<Rightarrow> string \<Rightarrow> reference list" where
  "referencesFromEdges objects targetKey =
     concat (map (\<lambda>e. case byKey objects (e_from e) of
                         None \<Rightarrow> []
                       | Some src \<Rightarrow> [\<lparr> ref_table = obj_name src, ref_column = e_label e \<rparr>])
               (filter (\<lambda>e. e_to e = targetKey) (edges objects)))"

section \<open>Example datasets\<close>

text \<open>Two tables, \<^verbatim>\<open>clients\<close> and \<^verbatim>\<open>locations\<close>; \<^verbatim>\<open>locations.client_id\<close> refers to
  \<^verbatim>\<open>clients.id\<close>. The indexes of \<^verbatim>\<open>locations\<close> are the argument.\<close>

definition clients_table :: schema_object where
  "clients_table =
     \<lparr> obj_key = ''table_clients'', obj_type = ''table'', obj_name = ''clients'',
       obj_columns = Some [\<lparr> col_name = ''id'', col_fk = None \<rparr>],
       obj_indexes = Some [] \<rparr>"

definition locations_table :: "index list option \<Rightarrow> schema_object" where
  "locations_table ixs =
     \<lparr> obj_key = ''table_locations'', obj_type = ''table'', obj_name = ''locations'',
       obj_columns = Some [\<lparr> col_name = ''id'', col_fk = None \<rparr>,
                           \<lparr> col_name = ''client_id'',
                             col_fk = Some \<lparr> fk_table = ''clients'', fk_column = ''id'' \<rparr> \<rparr>],
       obj_indexes = ixs \<rparr>"

text \<open>Two foreign keys from \<^verbatim>\<open>orders\<close> to \<^verbatim>\<open>users\<close>, and one to a table that
  the dataset does not have.\<close>

definition users_table :: schema_object where
  "users_table =
     \<lparr> obj_key = ''table_users'', obj_type = ''table'', obj_name = ''users'',
       obj_columns = Some [\<lparr> col_name = ''id'', col_fk = None \<rparr>],
       obj_indexes = None \<rparr>"

definition orders_table :: schema_object where
  "orders_table =
     \<lparr> obj_key = ''table_orders'', obj_type = ''table'', obj_name = ''orders'',
       obj_columns = Some [\<lparr> col_name = ''created_by'',
                             col_fk = Some \<lparr> fk_table = ''users'', fk_column = ''id'' \<rparr> \<rparr>,
                           \<lparr> col_name = ''approved_by'',
                             col_fk = Some \<lparr> fk_table = ''users'', fk_column = ''id'' \<rparr> \<rparr>,
                           \<lparr> col_name = ''ghost_id'',
                             col_fk = Some \<lparr> fk_table = ''ghosts'', fk_column = ''id'' \<rparr> \<rparr>],
       obj_indexes = None \<rparr>"

text \<open>A rendered diagram of three nodes \<^verbatim>\<open>a\<close>, \<^verbatim>\<open>b\<close>, \<^verbatim>\<open>c\<close> with the edges
  \<^verbatim>\<open>a\<close> to \<^verbatim>\<open>b\<close> and \<^verbatim>\<open>b\<close> to \<^verbatim>\<open>c\<close>, as \<^verbatim>\<open>renderDiagram\<close> first appends them.\<close>

definition demo_edges :: "edge list" where
  "demo_edges =
     [\<lparr> e_from = ''a'', e_to = ''b'', e_label = ''b_id'' \<rparr>,
      \<lparr> e_from = ''b'', e_to = ''c'', e_label = ''c_id'' \<rparr>]"

definition demo_page :: page where
  "demo_page =
     \<lparr> nodes =
         [\<lparr> data_key = ''a'', translate = gridPos 0, rect_selected = False, node_is_dim = False \<rparr>,
          \<lparr> data_key = ''b'', translate = gridPos 1, rect_selected = False, node_is_dim = False \<rparr>,
          \<lparr> data_key = ''c'', translate = gridPos 2, rect_selected = False, node_is_dim = False \<rparr>],
       edge_lines =
         [\<lparr> data_from = ''a'', data_to = ''b'', is_highlight = False,
             marker_end = ''url(#arrow)'', opacity = [], edge_is_dim = False \<rparr>,
          \<lparr> data_from = ''b'', data_to = ''c'', is_highlight = False,
             marker_end = ''url(#arrow)'', opacity = [], edge_is_dim = False \<rparr>] \<rparr>"

text \<open>A dataset in which the key of the first table is the empty string; \<^verbatim>\<open>tb.c_id\<close>
  refers to \<^verbatim>\<open>tc\<close>.\<close>

definition blank_key_dataset :: "schema_object list" where
  "blank_key_dataset =
     [\<lparr> obj_key = [], obj_type = ''table'', obj_name = ''ta'',
         obj_columns = Some [\<lparr> col_name = ''id'', col_fk = None \<rparr>], obj_indexes = None \<rparr>,
      \<lparr> obj_key = ''b'', obj_type = ''table'', obj_name = ''tb'',
         obj_columns = Some [\<lparr> col_name = ''c_id'',
                               col_fk = Some \<lparr> fk_table = ''tc'', fk_column = ''id'' \<rparr> \<rparr>],
         obj_indexes = None \<rparr>,
      \<lparr> obj_key = ''c'', obj_type = ''table'', obj_name = ''tc'',
         obj_columns = Some [\<lparr> col_name = ''id'', col_fk = None \<rparr>], obj_indexes = None \<rparr>]"

text \<open>Eight tables without columns, enough for a second row of the grid.\<close>

definition eight_tables :: "schema_object list" where
  "eight_tables =
     map (\<lambda>k. \<lparr> obj_key = k, obj_type = ''table'', obj_name = k,
                 obj_columns = None, obj_indexes = None \<rparr>)
       [''t0'', ''t1'', ''t2'', ''t3'', ''t4'', ''t5'', ''t6'', ''t7'']"

section \<open>Lemmas on the lookups\<close>

lemma byType_loop_get:
  "byType_loop obs m t =
     (if filter (\<lambda>ob. obj_type ob = t) obs = [] then m t
      else Some (orEmpty (m t) @ filter (\<lambda>ob. obj_type ob = t) obs))"
proof (induction obs arbitrary: m)
  case Nil
  then show ?case by simp
next
  case (Cons ob obs)
  show ?case
    by (cases "m (obj_type ob)") (auto simp: Cons.IH Let_def orEmpty_def)
qed

lemma tablesByType_eq_tables: "tablesByType objects = tables objects"
  by (simp add: tablesByType_def tables_def byType_def byType_loop_get orEmpty_def)

section \<open>The audit\<close>

lemma hasIndex_first:
  "hasIndex tbl c \<longleftrightarrow>
     (\<exists>idx \<in> set (orEmpty (obj_indexes tbl)). \<exists>rest. idx_columns idx = Some (c # rest))"
proof -
  have h: "\<And>idx. (let idxCols = orEmpty (idx_columns idx) in length idxCols > 0 \<and> idxCols ! 0 = c)
             = (\<exists>rest. idx_columns idx = Some (c # rest))"
  proof -
    fix idx
    show "(let idxCols = orEmpty (idx_columns idx) in length idxCols > 0 \<and> idxCols ! 0 = c)
             = (\<exists>rest. idx_columns idx = Some (c # rest))"
    proof (cases "idx_columns idx")
      case None
      then show ?thesis by (simp add: orEmpty_def)
    next
      case (Some cs)
      then show ?thesis by (cases cs) (auto simp: orEmpty_def)
    qed
  qed
  show ?thesis
    by (simp only: hasIndex_def list_ex_iff h)
qed

lemma auditColumns_acc:
  "auditColumns tbl cols issues =
     issues @ concat (map (\<lambda>col. case col_fk col of
                                    None \<Rightarrow> []
                                  | Some k \<Rightarrow> if hasIndex tbl (col_name col) then []
                                              else [issue tbl col k]) cols)"
  by (induction cols arbitrary: issues) (simp_all split: option.splits)

lemma auditTables_acc:
  "auditTables tbls issues =
     issues @ concat (map (\<lambda>tbl. concat (map (\<lambda>col. case col_fk col of
                                    None \<Rightarrow> []
                                  | Some k \<Rightarrow> if hasIndex tbl (col_name col) then []
                                              else [issue tbl col k]) (orEmpty (obj_columns tbl)))) tbls)"
  by (induction tbls arbitrary: issues)
     (simp_all add: auditColumns_acc orEmpty_def split: option.splits)

text \<open>
  Claim C1. The audit returns, table by table in dataset order and column by column,
  exactly one finding (table name, column name, referenced table, suggested statement)
  for each column that has a foreign key and for which \<^verbatim>\<open>hasIndex\<close> is false, and
  nothing for any other column. \<^verbatim>\<open>hasIndex\<close> holds exactly when some index of the
  table has the column as the first element of its column list. So a table with no
  index yields a finding for each foreign key column, and an index whose first column
  is another one changes nothing, wherever else the column stands in it.
\<close>

theorem fk_audit_findings:
  "auditFkIndexes objects =
     concat (map (\<lambda>tbl. concat (map (\<lambda>col. case col_fk col of
                                             None \<Rightarrow> []
                                           | Some k \<Rightarrow> if hasIndex tbl (col_name col) then []
                                                       else [\<lparr> f_table = obj_name tbl,
                                                           f_column = col_name col,
                                                           f_referencedTable = fk_table k,
                                                           f_suggestion =
                                                             ''CREATE INDEX idx_'' @ obj_name tbl @ ''_'' @
                                                             col_name col @ '' ON '' @ obj_name tbl @
                                                             ''('' @ col_name col @ '');'' \<rparr>])
                                  (orEmpty (obj_columns tbl))))
               (tables objects))
   \<and> (hasIndex tbl c \<longleftrightarrow>
        (\<exists>idx \<in> set (orEmpty (obj_indexes tbl)). \<exists>rest. idx_columns idx = Some (c # rest)))
   \<and> (orEmpty (obj_indexes tbl) = [] \<longrightarrow> \<not> hasIndex tbl c)
   \<and> (idx_columns idx = Some (other # others) \<and> other \<noteq> c \<longrightarrow>
        hasIndex (tbl\<lparr> obj_indexes := Some (idx # ixs) \<rparr>) c
          = hasIndex (tbl\<lparr> obj_indexes := Some ixs \<rparr>) c)"
proof (intro conjI impI)
  show "auditFkIndexes objects =
     concat (map (\<lambda>tbl. concat (map (\<lambda>col. case col_fk col of
                                             None \<Rightarrow> []
                                           | Some k \<Rightarrow> if hasIndex tbl (col_name col) then []
                                                       else [\<lparr> f_table = obj_name tbl,
                                                           f_column = col_name col,
                                                           f_referencedTable = fk_table k,
                                                           f_suggestion =
                                                             ''CREATE INDEX idx_'' @ obj_name tbl @ ''_'' @
                                                             col_name col @ '' ON '' @ obj_name tbl @
                                                             ''('' @ col_name col @ '');'' \<rparr>])
                                  (orEmpty (obj_columns tbl))))
               (tables objects))"
    unfolding auditFkIndexes_def auditTables_acc tablesByType_eq_tables issue_def by simp
  show "hasIndex tbl c \<longleftrightarrow>
        (\<exists>idx \<in> set (orEmpty (obj_indexes tbl)). \<exists>rest. idx_columns idx = Some (c # rest))"
    by (rule hasIndex_first)
  show "\<not> hasIndex tbl c" if "orEmpty (obj_indexes tbl) = []"
    using that by (simp add: hasIndex_def)
  show "hasIndex (tbl\<lparr> obj_indexes := Some (idx # ixs) \<rparr>) c
          = hasIndex (tbl\<lparr> obj_indexes := Some ixs \<rparr>) c"
    if "idx_columns idx = Some (other # others) \<and> other \<noteq> c"
    using that by (simp add: hasIndex_def orEmpty_def)
qed

theorem fk_audit_findings_witness:
  "auditFkIndexes [clients_table, locations_table None] =
     [\<lparr> f_table = ''locations'', f_column = ''client_id'', f_referencedTable = ''clients'',
        f_suggestion = ''CREATE INDEX idx_locations_client_id ON locations(client_id);'' \<rparr>]
   \<and> auditFkIndexes [clients_table, locations_table (Some [])] =
     [\<lparr> f_table = ''locations'', f_column = ''client_id'', f_referencedTable = ''clients'',
        f_suggestion = ''CREATE INDEX idx_locations_client_id ON locations(client_id);'' \<rparr>]
   \<and> auditFkIndexes [clients_table,
        locations_table (Some [\<lparr> idx_name = ''ix'', idx_columns = Some [''client_id''] \<rparr>])] = []
   \<and> auditFkIndexes [clients_table,
        locations_table (Some [\<lparr> idx_name = ''ix'', idx_columns = Some [''other'', ''client_id''] \<rparr>])] =
     [\<lparr> f_table = ''locations'', f_column = ''client_id'', f_referencedTable = ''clients'',
        f_suggestion = ''CREATE INDEX idx_locations_client_id ON locations(client_id);'' \<rparr>]
   \<and> \<not> hasIndex (locations_table None) ''client_id''
   \<and> \<not> hasIndex (locations_table (Some [\<lparr> idx_name = ''ix'',
                         idx_columns = Some [''other'', ''client_id''] \<rparr>])) ''client_id''"
proof -
  have none: "orEmpty (obj_indexes (locations_table None)) = []"
    and empty: "orEmpty (obj_indexes (locations_table (Some []))) = []"
    by (simp_all add: locations_table_def orEmpty_def)
  have n1: "\<not> hasIndex (locations_table None) ''client_id''"
    using fk_audit_findings [of _ "locations_table None" "''client_id''"] none by blast
  have n2: "\<not> hasIndex (locations_table (Some [])) ''client_id''"
    using fk_audit_findings [of _ "locations_table (Some [])" "''client_id''"] empty by blast
  have second: "idx_columns \<lparr> idx_name = ''ix'', idx_columns = Some [''other'', ''client_id''] \<rparr>
                  = Some (''other'' # [''client_id'']) \<and> ''other'' \<noteq> ''client_id''"
    by simp
  have upd: "\<And>ixs. (locations_table None)\<lparr> obj_indexes := Some ixs \<rparr> = locations_table (Some ixs)"
    by (simp add: locations_table_def)
  have "hasIndex ((locations_table None)\<lparr> obj_indexes := Some
            [\<lparr> idx_name = ''ix'', idx_columns = Some [''other'', ''client_id''] \<rparr>] \<rparr>) ''client_id''
          = hasIndex ((locations_table None)\<lparr> obj_indexes := Some [] \<rparr>) ''client_id''"
    using fk_audit_findings [of _ "locations_table None" "''client_id''"
            "\<lparr> idx_name = ''ix'', idx_columns = Some [''other'', ''client_id''] \<rparr>"
            "''other''" "[''client_id'']" "[]"] second
    by blast
  then have n3: "\<not> hasIndex (locations_table (Some [\<lparr> idx_name = ''ix'',
                         idx_columns = Some [''other'', ''client_id''] \<rparr>])) ''client_id''"
    using n2 by (simp add: upd)
  have audits:
    "auditFkIndexes [clients_table, locations_table None] =
       [\<lparr> f_table = ''locations'', f_column = ''client_id'', f_referencedTable = ''clients'',
          f_suggestion = ''CREATE INDEX idx_locations_client_id ON locations(client_id);'' \<rparr>]
     \<and> auditFkIndexes [clients_table, locations_table (Some [])] =
       [\<lparr> f_table = ''locations'', f_column = ''client_id'', f_referencedTable = ''clients'',
          f_suggestion = ''CREATE INDEX idx_locations_client_id ON locations(client_id);'' \<rparr>]
     \<and> auditFkIndexes [clients_table,
          locations_table (Some [\<lparr> idx_name = ''ix'', idx_columns = Some [''client_id''] \<rparr>])] = []
     \<and> auditFkIndexes [clients_table,
          locations_table (Some [\<lparr> idx_name = ''ix'', idx_columns = Some [''other'', ''client_id''] \<rparr>])] =
       [\<lparr> f_table = ''locations'', f_column = ''client_id'', f_referencedTable = ''clients'',
          f_suggestion = ''CREATE INDEX idx_locations_client_id ON locations(client_id);'' \<rparr>]"
    by (simp add: fk_audit_findings [THEN conjunct1] tables_def clients_table_def
          locations_table_def orEmpty_def hasIndex_def issue_def)
  show ?thesis
    using audits n1 n3 by blast
qed

section \<open>The edge list\<close>

lemma edgesColumns_acc:
  "edgesColumns objects t cs es =
     es @ concat (map (\<lambda>c. case col_fk c of
                              None \<Rightarrow> []
                            | Some k \<Rightarrow>
                                (case List.find (\<lambda>ob. obj_type ob = ''table'' \<and> obj_name ob = fk_table k) objects of
                                   None \<Rightarrow> []
                                 | Some target \<Rightarrow>
                                     [\<lparr> e_from = obj_key t, e_to = obj_key target, e_label = col_name c \<rparr>])) cs)"
  by (induction cs arbitrary: es) (simp_all split: option.splits)

lemma edgesTables_acc:
  "edgesTables objects ts es =
     es @ concat (map (\<lambda>t. concat (map (\<lambda>c. case col_fk c of
                              None \<Rightarrow> []
                            | Some k \<Rightarrow>
                                (case List.find (\<lambda>ob. obj_type ob = ''table'' \<and> obj_name ob = fk_table k) objects of
                                   None \<Rightarrow> []
                                 | Some target \<Rightarrow>
                                     [\<lparr> e_from = obj_key t, e_to = obj_key target, e_label = col_name c \<rparr>]))
                          (orEmpty (obj_columns t)))) ts)"
  by (induction ts arbitrary: es)
     (simp_all add: edgesColumns_acc orEmpty_def split: option.splits)

lemma edges_concat:
  "edges objects =
     concat (map (\<lambda>t. concat (map (\<lambda>c. case col_fk c of
                              None \<Rightarrow> []
                            | Some k \<Rightarrow>
                                (case List.find (\<lambda>ob. obj_type ob = ''table'' \<and> obj_name ob = fk_table k) objects of
                                   None \<Rightarrow> []
                                 | Some target \<Rightarrow>
                                     [\<lparr> e_from = obj_key t, e_to = obj_key target, e_label = col_name c \<rparr>]))
                          (orEmpty (obj_columns t)))) (tables objects))"
  by (simp add: edges_def edgesTables_acc)


lemma find_Some_table:
  "List.find (\<lambda>ob. obj_type ob = ''table'' \<and> obj_name ob = n) objects = Some target \<Longrightarrow>
     target \<in> set objects \<and> obj_type target = ''table'' \<and> obj_name target = n"
  by (auto simp: find_Some_iff)







section \<open>Neighbour keys\<close>

lemma neighbors_loop_eq:
  "neighbors_loop k es ns =
     ns \<union> {e_to e | e. e \<in> set es \<and> e_from e = k} \<union> {e_from e | e. e \<in> set es \<and> e_to e = k}"
proof (induction es arbitrary: ns)
  case Nil
  then show ?case by simp
next
  case (Cons e es)
  show ?case
    unfolding neighbors_loop.simps Let_def Cons.IH by auto
qed

lemma getNeighborKeys_iff:
  "b \<in> getNeighborKeys es a \<longleftrightarrow>
     b = a \<or> (\<exists>e \<in> set es. (e_from e = a \<and> e_to e = b) \<or> (e_to e = a \<and> e_from e = b))"
  unfolding getNeighborKeys_def neighbors_loop_eq by auto

text \<open>
  Claim C6. For every edge list and all keys \<open>a\<close> and \<open>b\<close>: \<open>b\<close> is among the neighbour
  keys of \<open>a\<close> exactly when \<open>a\<close> is among those of \<open>b\<close>, and \<open>a\<close> is always among its
  own. The neighbour keys of \<open>a\<close> are \<open>a\<close> and the other end of every edge that starts
  or ends at \<open>a\<close>.
\<close>

theorem neighbors_symmetric:
  "(b \<in> getNeighborKeys es a \<longleftrightarrow> a \<in> getNeighborKeys es b)
   \<and> a \<in> getNeighborKeys es a
   \<and> (b \<in> getNeighborKeys es a \<longleftrightarrow>
        b = a \<or> (\<exists>e \<in> set es. (e_from e = a \<and> e_to e = b) \<or> (e_to e = a \<and> e_from e = b)))"
proof (intro conjI)
  show "b \<in> getNeighborKeys es a \<longleftrightarrow> a \<in> getNeighborKeys es b"
    unfolding getNeighborKeys_iff by auto
  show "a \<in> getNeighborKeys es a"
    unfolding getNeighborKeys_iff by simp
  show "b \<in> getNeighborKeys es a \<longleftrightarrow>
        b = a \<or> (\<exists>e \<in> set es. (e_from e = a \<and> e_to e = b) \<or> (e_to e = a \<and> e_from e = b))"
    by (rule getNeighborKeys_iff)
qed

section \<open>Edge visibility\<close>

lemma updateEdgeLines_map: "updateEdgeLines st a ls = map (updateEdgeLine st a) ls"
  by (induction ls) simp_all

lemma updated_line_nth:
  "i < length (edge_lines pg) \<Longrightarrow>
     edge_lines (updateEdgeVisibility st pg) ! i
       = updateEdgeLine st (activeKey st) (edge_lines pg ! i)"
  by (simp add: updateEdgeVisibility_def updateEdgeLines_map)

lemma updateEdgeLine_highlight:
  "is_highlight (updateEdgeLine st a l) = isHighlighted a (data_from l) (data_to l)"
  by (simp add: updateEdgeLine_def Let_def)

lemma updateEdgeLine_opacity:
  "opacity (updateEdgeLine st a l) =
     (if showEdges st = ''off'' then ''0''
      else if showEdges st = ''all''
           then (if isHighlighted a (data_from l) (data_to l) then ''1'' else ''0.4'')
           else (if isHighlighted a (data_from l) (data_to l) then ''1'' else ''0''))"
  by (simp add: updateEdgeLine_def Let_def)

text \<open>
  Claim C4. After \<^verbatim>\<open>updateEdgeVisibility\<close>, for every edge line of the diagram: in mode
  \<^verbatim>\<open>off\<close> its opacity is \<^verbatim>\<open>0\<close> whether it is highlighted or not; in mode \<^verbatim>\<open>all\<close> it is
  \<^verbatim>\<open>1\<close> when the line is highlighted and \<^verbatim>\<open>0.4\<close> otherwise; in mode \<^verbatim>\<open>focus\<close> it is
  \<^verbatim>\<open>1\<close> when the line is highlighted and \<^verbatim>\<open>0\<close> otherwise. No line is added or removed.
\<close>

theorem edge_opacity_by_mode:
  assumes "i < length (edge_lines pg)"
  shows "(showEdges st = ''off'' \<longrightarrow>
            opacity (edge_lines (updateEdgeVisibility st pg) ! i) = ''0'')
       \<and> (showEdges st = ''all'' \<longrightarrow>
            opacity (edge_lines (updateEdgeVisibility st pg) ! i) =
              (if is_highlight (edge_lines (updateEdgeVisibility st pg) ! i) then ''1'' else ''0.4''))
       \<and> (showEdges st = ''focus'' \<longrightarrow>
            opacity (edge_lines (updateEdgeVisibility st pg) ! i) =
              (if is_highlight (edge_lines (updateEdgeVisibility st pg) ! i) then ''1'' else ''0''))
       \<and> length (edge_lines (updateEdgeVisibility st pg)) = length (edge_lines pg)"
  using assms
  by (simp add: updated_line_nth updateEdgeLine_opacity updateEdgeLine_highlight)
     (simp add: updateEdgeVisibility_def updateEdgeLines_map)

theorem edge_opacity_by_mode_witness:
  "opacity (edge_lines (updateEdgeVisibility
              (initial_state\<lparr> selected := Some ''a'', showEdges := ''off'' \<rparr>) demo_page) ! 0) = ''0''
   \<and> opacity (edge_lines (updateEdgeVisibility
              (initial_state\<lparr> selected := Some ''a'', showEdges := ''all'' \<rparr>) demo_page) ! 0) = ''1''
   \<and> opacity (edge_lines (updateEdgeVisibility
              (initial_state\<lparr> selected := Some ''a'', showEdges := ''all'' \<rparr>) demo_page) ! 1) = ''0.4''
   \<and> opacity (edge_lines (updateEdgeVisibility
              (initial_state\<lparr> selected := Some ''a'', showEdges := ''focus'' \<rparr>) demo_page) ! 0) = ''1''
   \<and> opacity (edge_lines (updateEdgeVisibility
              (initial_state\<lparr> selected := Some ''a'', showEdges := ''focus'' \<rparr>) demo_page) ! 1) = ''0''"
proof -
  have len: "0 < length (edge_lines demo_page)" "1 < length (edge_lines demo_page)"
    by (simp_all add: demo_page_def)
  have hl0: "\<And>m. is_highlight (edge_lines (updateEdgeVisibility
              (initial_state\<lparr> selected := Some ''a'', showEdges := m \<rparr>) demo_page) ! 0)"
    by (simp add: updateEdgeVisibility_def demo_page_def updateEdgeLine_highlight isHighlighted_def
          activeKey_def truthy_def initial_state_def)
  have hl1: "\<And>m. \<not> is_highlight (edge_lines (updateEdgeVisibility
              (initial_state\<lparr> selected := Some ''a'', showEdges := m \<rparr>) demo_page) ! 1)"
    by (simp add: updateEdgeVisibility_def demo_page_def updateEdgeLine_highlight isHighlighted_def
          activeKey_def truthy_def initial_state_def)
  have c1: "opacity (edge_lines (updateEdgeVisibility
              (initial_state\<lparr> selected := Some ''a'', showEdges := ''off'' \<rparr>) demo_page) ! 0) = ''0''"
    using edge_opacity_by_mode [OF len(1), of "initial_state\<lparr> selected := Some ''a'', showEdges := ''off'' \<rparr>"]
    by simp
  have c2: "opacity (edge_lines (updateEdgeVisibility
              (initial_state\<lparr> selected := Some ''a'', showEdges := ''all'' \<rparr>) demo_page) ! 0) = ''1''"
    using edge_opacity_by_mode [OF len(1), of "initial_state\<lparr> selected := Some ''a'', showEdges := ''all'' \<rparr>"]
          hl0 [of "''all''"]
    by simp
  have c3: "opacity (edge_lines (updateEdgeVisibility
              (initial_state\<lparr> selected := Some ''a'', showEdges := ''all'' \<rparr>) demo_page) ! 1) = ''0.4''"
    using edge_opacity_by_mode [OF len(2), of "initial_state\<lparr> selected := Some ''a'', showEdges := ''all'' \<rparr>"]
          hl1 [of "''all''"]
    by simp
  have c4: "opacity (edge_lines (updateEdgeVisibility
              (initial_state\<lparr> selected := Some ''a'', showEdges := ''focus'' \<rparr>) demo_page) ! 0) = ''1''"
    using edge_opacity_by_mode [OF len(1), of "initial_state\<lparr> selected := Some ''a'', showEdges := ''focus'' \<rparr>"]
          hl0 [of "''focus''"]
    by simp
  have c5: "opacity (edge_lines (updateEdgeVisibility
              (initial_state\<lparr> selected := Some ''a'', showEdges := ''focus'' \<rparr>) demo_page) ! 1) = ''0''"
    using edge_opacity_by_mode [OF len(2), of "initial_state\<lparr> selected := Some ''a'', showEdges := ''focus'' \<rparr>"]
          hl1 [of "''focus''"]
    by simp
  show ?thesis
    using c1 c2 c3 c4 c5 by blast
qed

section \<open>Active key and highlighting\<close>

lemma highlight_nth:
  "i < length (edge_lines pg) \<Longrightarrow>
     is_highlight (edge_lines (updateEdgeVisibility st pg) ! i)
       = (truthy (activeKey st) \<and>
          (Some (data_from (edge_lines pg ! i)) = activeKey st \<or>
           Some (data_to (edge_lines pg ! i)) = activeKey st))"
  by (simp add: updated_line_nth updateEdgeLine_highlight isHighlighted_def)

text \<open>
  Claim C5, as the code has it. The source tests a key by truthiness: a key is present
  when it is a non-empty string, and \<^verbatim>\<open>null\<close> and the empty string both count as no
  key. The active key is the selected key when that is a non-empty string and the
  hovered key otherwise. An edge line is highlighted exactly when the active key is a
  non-empty string and is the line's \<^verbatim>\<open>from\<close> or \<^verbatim>\<open>to\<close>. So when the selected key is a
  non-empty string, highlighting follows the selected key, whatever is hovered.
\<close>

theorem active_key_precedence:
  assumes "i < length (edge_lines pg)"
  shows "activeKey st = (if truthy (selected st) then selected st else hovered st)
       \<and> (truthy v \<longleftrightarrow> (\<exists>k. v = Some k \<and> k \<noteq> []))
       \<and> (is_highlight (edge_lines (updateEdgeVisibility st pg) ! i) \<longleftrightarrow>
            truthy (activeKey st) \<and>
            (Some (data_from (edge_lines pg ! i)) = activeKey st \<or>
             Some (data_to (edge_lines pg ! i)) = activeKey st))
       \<and> (truthy (selected st) \<longrightarrow>
            (is_highlight (edge_lines (updateEdgeVisibility st pg) ! i) \<longleftrightarrow>
               Some (data_from (edge_lines pg ! i)) = selected st \<or>
               Some (data_to (edge_lines pg ! i)) = selected st))
       \<and> length (edge_lines (updateEdgeVisibility st pg)) = length (edge_lines pg)
       \<and> data_from (edge_lines (updateEdgeVisibility st pg) ! i) = data_from (edge_lines pg ! i)
       \<and> data_to (edge_lines (updateEdgeVisibility st pg) ! i) = data_to (edge_lines pg ! i)
       \<and> nodes (updateEdgeVisibility st pg) = nodes pg"
proof (intro conjI impI)
  show "length (edge_lines (updateEdgeVisibility st pg)) = length (edge_lines pg)"
    by (simp add: updateEdgeVisibility_def updateEdgeLines_map)
  show "data_from (edge_lines (updateEdgeVisibility st pg) ! i) = data_from (edge_lines pg ! i)"
    using assms by (simp add: updated_line_nth updateEdgeLine_def Let_def)
  show "data_to (edge_lines (updateEdgeVisibility st pg) ! i) = data_to (edge_lines pg ! i)"
    using assms by (simp add: updated_line_nth updateEdgeLine_def Let_def)
  show "nodes (updateEdgeVisibility st pg) = nodes pg"
    by (simp add: updateEdgeVisibility_def)
  show "activeKey st = (if truthy (selected st) then selected st else hovered st)"
    by (simp add: activeKey_def)
  show "truthy v \<longleftrightarrow> (\<exists>k. v = Some k \<and> k \<noteq> [])"
    by (simp add: truthy_def split: option.splits)
  show "is_highlight (edge_lines (updateEdgeVisibility st pg) ! i) \<longleftrightarrow>
            truthy (activeKey st) \<and>
            (Some (data_from (edge_lines pg ! i)) = activeKey st \<or>
             Some (data_to (edge_lines pg ! i)) = activeKey st)"
    using assms by (rule highlight_nth)
  show "is_highlight (edge_lines (updateEdgeVisibility st pg) ! i) \<longleftrightarrow>
               Some (data_from (edge_lines pg ! i)) = selected st \<or>
               Some (data_to (edge_lines pg ! i)) = selected st"
    if "truthy (selected st)"
    using that assms by (simp add: highlight_nth activeKey_def)
qed

theorem active_key_precedence_witness:
  "activeKey (initial_state\<lparr> selected := Some ''a'', hovered := Some ''c'' \<rparr>) = Some ''a''
   \<and> is_highlight (edge_lines (updateEdgeVisibility
        (initial_state\<lparr> selected := Some ''a'', hovered := Some ''c'' \<rparr>) demo_page) ! 0)
   \<and> \<not> is_highlight (edge_lines (updateEdgeVisibility
        (initial_state\<lparr> selected := Some ''a'', hovered := Some ''c'' \<rparr>) demo_page) ! 1)
   \<and> activeKey (initial_state\<lparr> hovered := Some ''c'' \<rparr>) = Some ''c''
   \<and> is_highlight (edge_lines (updateEdgeVisibility
        (initial_state\<lparr> hovered := Some ''c'' \<rparr>) demo_page) ! 1)"
proof -
  have len: "0 < length (edge_lines demo_page)" "1 < length (edge_lines demo_page)"
    by (simp_all add: demo_page_def)
  have sel: "truthy (selected (initial_state\<lparr> selected := Some ''a'', hovered := Some ''c'' \<rparr>))"
    by (simp add: truthy_def)
  have nsel: "\<not> truthy (selected (initial_state\<lparr> hovered := Some ''c'' \<rparr>))"
    by (simp add: truthy_def initial_state_def)
  have a1: "activeKey (initial_state\<lparr> selected := Some ''a'', hovered := Some ''c'' \<rparr>) = Some ''a''"
    using active_key_precedence [OF len(1), of "initial_state\<lparr> selected := Some ''a'', hovered := Some ''c'' \<rparr>"] sel
    by simp
  have a2: "activeKey (initial_state\<lparr> hovered := Some ''c'' \<rparr>) = Some ''c''"
    using active_key_precedence [OF len(1), of "initial_state\<lparr> hovered := Some ''c'' \<rparr>", THEN conjunct1]
    by (simp add: initial_state_def truthy_def)
  have h0: "is_highlight (edge_lines (updateEdgeVisibility
        (initial_state\<lparr> selected := Some ''a'', hovered := Some ''c'' \<rparr>) demo_page) ! 0)"
    using active_key_precedence [OF len(1), of "initial_state\<lparr> selected := Some ''a'', hovered := Some ''c'' \<rparr>"] sel
    by (simp add: demo_page_def)
  have h1: "\<not> is_highlight (edge_lines (updateEdgeVisibility
        (initial_state\<lparr> selected := Some ''a'', hovered := Some ''c'' \<rparr>) demo_page) ! 1)"
    using active_key_precedence [OF len(2), of "initial_state\<lparr> selected := Some ''a'', hovered := Some ''c'' \<rparr>"] sel
    by (simp add: demo_page_def)
  have h2: "is_highlight (edge_lines (updateEdgeVisibility
        (initial_state\<lparr> hovered := Some ''c'' \<rparr>) demo_page) ! 1)"
    using active_key_precedence [OF len(2), of "initial_state\<lparr> hovered := Some ''c'' \<rparr>"] a2
    by (simp add: demo_page_def truthy_def)
  show ?thesis
    using a1 a2 h0 h1 h2 by blast
qed


text \<open>
  The claim as first stated takes a selection to be present whenever the selected key is
  not \<^verbatim>\<open>null\<close>. That fails for a table whose key is the empty string: after it is clicked
  and the table \<^verbatim>\<open>c\<close> is hovered, the state holds the selected key (and the node is
  drawn as selected), but the active key is the hovered one and the edge from \<^verbatim>\<open>b\<close> to
  \<^verbatim>\<open>c\<close> is highlighted.
\<close>

theorem active_key_precedence_counterexample:
  "selected (fst (hoverObject (Some ''c'') (selectObject blank_key_dataset (Some [])
       (initial_state, renderDiagram blank_key_dataset initial_state)))) = Some []
   \<and> hovered (fst (hoverObject (Some ''c'') (selectObject blank_key_dataset (Some [])
       (initial_state, renderDiagram blank_key_dataset initial_state)))) = Some ''c''
   \<and> activeKey (fst (hoverObject (Some ''c'') (selectObject blank_key_dataset (Some [])
       (initial_state, renderDiagram blank_key_dataset initial_state)))) = Some ''c''
   \<and> activeKey (fst (hoverObject (Some ''c'') (selectObject blank_key_dataset (Some [])
       (initial_state, renderDiagram blank_key_dataset initial_state))))
       \<noteq> selected (fst (hoverObject (Some ''c'') (selectObject blank_key_dataset (Some [])
       (initial_state, renderDiagram blank_key_dataset initial_state))))
   \<and> nodes (snd (hoverObject (Some ''c'') (selectObject blank_key_dataset (Some [])
       (initial_state, renderDiagram blank_key_dataset initial_state)))) ! 0
       = \<lparr> data_key = [], translate = \<lparr> pos_x = 50, pos_y = 50 \<rparr>,
           rect_selected = True, node_is_dim = False \<rparr>
   \<and> edge_lines (snd (hoverObject (Some ''c'') (selectObject blank_key_dataset (Some [])
       (initial_state, renderDiagram blank_key_dataset initial_state))))
       = [\<lparr> data_from = ''b'', data_to = ''c'', is_highlight = True,
            marker_end = ''url(#arrowHi)'', opacity = ''1'', edge_is_dim = False \<rparr>]"
  by code_simp

section \<open>Isolate mode\<close>

lemma dimNodes_map:
  "dimNodes vs ns = map (\<lambda>n. n\<lparr> node_is_dim := (data_key n \<notin> vs) \<rparr>) ns"
  by (induction ns) simp_all

lemma dimEdges_map:
  "dimEdges vs ls =
     map (\<lambda>l. l\<lparr> edge_is_dim := \<not> (data_from l \<in> vs \<and> data_to l \<in> vs) \<rparr>) ls"
  by (induction ls) simp_all

lemma isolate_off:
  assumes "\<not> isolateMode st \<or> \<not> truthy (selected st)"
  shows "nodes (applyIsolateMode es st pg) = map (\<lambda>n. n\<lparr> node_is_dim := False \<rparr>) (nodes pg)"
    and "edge_lines (applyIsolateMode es st pg)
           = map (\<lambda>l. l\<lparr> edge_is_dim := False \<rparr>) (edge_lines pg)"
  using assms by (auto simp: applyIsolateMode_def)

lemma isolate_on:
  assumes "isolateMode st" and "selected st = Some k" and "k \<noteq> []"
  shows "nodes (applyIsolateMode es st pg)
           = map (\<lambda>n. n\<lparr> node_is_dim := (data_key n \<notin> getNeighborKeys es k) \<rparr>) (nodes pg)"
    and "edge_lines (applyIsolateMode es st pg)
           = map (\<lambda>l. l\<lparr> edge_is_dim := \<not> (data_from l \<in> getNeighborKeys es k \<and>
                                               data_to l \<in> getNeighborKeys es k) \<rparr>) (edge_lines pg)"
  using assms by (simp_all add: applyIsolateMode_def truthy_def Let_def dimNodes_map dimEdges_map)

lemma truthy_iff: "truthy v \<longleftrightarrow> (\<exists>k. v = Some k \<and> k \<noteq> [])"
  by (simp add: truthy_def split: option.splits)

lemma applyIsolateMode_off:
  "\<not> isolateMode st \<or> \<not> truthy (selected st) \<Longrightarrow>
     applyIsolateMode es st pg =
       pg\<lparr> nodes := map (\<lambda>n. n\<lparr> node_is_dim := False \<rparr>) (nodes pg),
           edge_lines := map (\<lambda>l. l\<lparr> edge_is_dim := False \<rparr>) (edge_lines pg) \<rparr>"
  by (auto simp: applyIsolateMode_def)

lemma applyIsolateMode_on:
  "isolateMode st \<Longrightarrow> selected st = Some k \<Longrightarrow> k \<noteq> [] \<Longrightarrow>
     applyIsolateMode es st pg =
       pg\<lparr> nodes := map (\<lambda>n. n\<lparr> node_is_dim := (data_key n \<notin> getNeighborKeys es k) \<rparr>) (nodes pg),
           edge_lines := map (\<lambda>l. l\<lparr> edge_is_dim := \<not> (data_from l \<in> getNeighborKeys es k \<and>
                                                    data_to l \<in> getNeighborKeys es k) \<rparr>)
                           (edge_lines pg) \<rparr>"
  by (simp add: applyIsolateMode_def truthy_def Let_def dimNodes_map dimEdges_map)

lemma isolateChange_off:
  "isolateChange objects False (st, pg) =
     (st\<lparr> isolateMode := False \<rparr>,
      pg\<lparr> nodes := map (\<lambda>n. n\<lparr> node_is_dim := False \<rparr>) (nodes pg),
          edge_lines := map (\<lambda>l. l\<lparr> edge_is_dim := False \<rparr>) (edge_lines pg) \<rparr>)"
  by (simp add: isolateChange_def Let_def applyIsolateMode_off)

text \<open>
  Claim C3, as the code has it. The source tests the selected key by truthiness:
  \<^verbatim>\<open>null\<close> and the empty string both count as no selection. When isolate mode is off
  or the selected key is \<^verbatim>\<open>null\<close> or the empty string, \<^verbatim>\<open>applyIsolateMode\<close> keeps every
  node and edge line and leaves none of them dimmed. When isolate mode is on and the
  selected key \<open>k\<close> is a non-empty string, it keeps every node and edge line, a node is
  dimmed exactly when its key is not among the neighbour keys of \<open>k\<close>, and an edge line
  is dimmed exactly when not both of its ends are among them. Unchecking the isolate
  checkbox changes nothing of the state but the isolate flag, so the selection stays,
  keeps every node and edge line, and removes all dimming.
\<close>

theorem isolation_dimming:
  "(\<not> isolateMode st \<or> \<not> truthy (selected st) \<longrightarrow>
      applyIsolateMode es st pg =
        pg\<lparr> nodes := map (\<lambda>n. n\<lparr> node_is_dim := False \<rparr>) (nodes pg),
            edge_lines := map (\<lambda>l. l\<lparr> edge_is_dim := False \<rparr>) (edge_lines pg) \<rparr>
      \<and> (\<forall>n \<in> set (nodes (applyIsolateMode es st pg)). \<not> node_is_dim n)
      \<and> (\<forall>l \<in> set (edge_lines (applyIsolateMode es st pg)). \<not> edge_is_dim l))
   \<and> (isolateMode st \<and> selected st = Some k \<and> k \<noteq> [] \<longrightarrow>
      applyIsolateMode es st pg =
        pg\<lparr> nodes := map (\<lambda>n. n\<lparr> node_is_dim := (data_key n \<notin> getNeighborKeys es k) \<rparr>) (nodes pg),
            edge_lines := map (\<lambda>l. l\<lparr> edge_is_dim := \<not> (data_from l \<in> getNeighborKeys es k \<and>
                                                     data_to l \<in> getNeighborKeys es k) \<rparr>)
                            (edge_lines pg) \<rparr>
      \<and> length (nodes (applyIsolateMode es st pg)) = length (nodes pg)
      \<and> length (edge_lines (applyIsolateMode es st pg)) = length (edge_lines pg)
      \<and> (\<forall>i < length (nodes pg).
            data_key (nodes (applyIsolateMode es st pg) ! i) = data_key (nodes pg ! i)
            \<and> (node_is_dim (nodes (applyIsolateMode es st pg) ! i) \<longleftrightarrow>
                 data_key (nodes pg ! i) \<notin> getNeighborKeys es k))
      \<and> (\<forall>i < length (edge_lines pg).
            data_from (edge_lines (applyIsolateMode es st pg) ! i) = data_from (edge_lines pg ! i)
            \<and> data_to (edge_lines (applyIsolateMode es st pg) ! i) = data_to (edge_lines pg ! i)
            \<and> (edge_is_dim (edge_lines (applyIsolateMode es st pg) ! i) \<longleftrightarrow>
                 \<not> (data_from (edge_lines pg ! i) \<in> getNeighborKeys es k
                    \<and> data_to (edge_lines pg ! i) \<in> getNeighborKeys es k))))
   \<and> (truthy v \<longleftrightarrow> (\<exists>k. v = Some k \<and> k \<noteq> []))
   \<and> isolateChange objects False (st, pg) =
       (st\<lparr> isolateMode := False \<rparr>,
        pg\<lparr> nodes := map (\<lambda>n. n\<lparr> node_is_dim := False \<rparr>) (nodes pg),
            edge_lines := map (\<lambda>l. l\<lparr> edge_is_dim := False \<rparr>) (edge_lines pg) \<rparr>)
   \<and> selected (fst (isolateChange objects False (st, pg))) = selected st
   \<and> (\<forall>n \<in> set (nodes (snd (isolateChange objects False (st, pg)))). \<not> node_is_dim n)
   \<and> (\<forall>l \<in> set (edge_lines (snd (isolateChange objects False (st, pg)))). \<not> edge_is_dim l)"
proof (intro conjI impI)
  assume off: "\<not> isolateMode st \<or> \<not> truthy (selected st)"
  show "applyIsolateMode es st pg =
        pg\<lparr> nodes := map (\<lambda>n. n\<lparr> node_is_dim := False \<rparr>) (nodes pg),
            edge_lines := map (\<lambda>l. l\<lparr> edge_is_dim := False \<rparr>) (edge_lines pg) \<rparr>"
    using off by (rule applyIsolateMode_off)
  show "\<forall>n \<in> set (nodes (applyIsolateMode es st pg)). \<not> node_is_dim n"
    by (simp add: applyIsolateMode_off [OF off])
  show "\<forall>l \<in> set (edge_lines (applyIsolateMode es st pg)). \<not> edge_is_dim l"
    by (simp add: applyIsolateMode_off [OF off])
next
  assume on: "isolateMode st \<and> selected st = Some k \<and> k \<noteq> []"
  then have a: "isolateMode st" and b: "selected st = Some k" and c: "k \<noteq> []"
    by simp_all
  show "applyIsolateMode es st pg =
        pg\<lparr> nodes := map (\<lambda>n. n\<lparr> node_is_dim := (data_key n \<notin> getNeighborKeys es k) \<rparr>) (nodes pg),
            edge_lines := map (\<lambda>l. l\<lparr> edge_is_dim := \<not> (data_from l \<in> getNeighborKeys es k \<and>
                                                     data_to l \<in> getNeighborKeys es k) \<rparr>)
                            (edge_lines pg) \<rparr>"
    using a b c by (rule applyIsolateMode_on)
  show "length (nodes (applyIsolateMode es st pg)) = length (nodes pg)"
    by (simp add: applyIsolateMode_on [OF a b c])
  show "length (edge_lines (applyIsolateMode es st pg)) = length (edge_lines pg)"
    by (simp add: applyIsolateMode_on [OF a b c])
  show "\<forall>i < length (nodes pg).
            data_key (nodes (applyIsolateMode es st pg) ! i) = data_key (nodes pg ! i)
            \<and> (node_is_dim (nodes (applyIsolateMode es st pg) ! i) \<longleftrightarrow>
                 data_key (nodes pg ! i) \<notin> getNeighborKeys es k)"
    by (simp add: applyIsolateMode_on [OF a b c])
  show "\<forall>i < length (edge_lines pg).
            data_from (edge_lines (applyIsolateMode es st pg) ! i) = data_from (edge_lines pg ! i)
            \<and> data_to (edge_lines (applyIsolateMode es st pg) ! i) = data_to (edge_lines pg ! i)
            \<and> (edge_is_dim (edge_lines (applyIsolateMode es st pg) ! i) \<longleftrightarrow>
                 \<not> (data_from (edge_lines pg ! i) \<in> getNeighborKeys es k
                    \<and> data_to (edge_lines pg ! i) \<in> getNeighborKeys es k))"
    by (simp add: applyIsolateMode_on [OF a b c])
next
  show "truthy v \<longleftrightarrow> (\<exists>k. v = Some k \<and> k \<noteq> [])"
    by (rule truthy_iff)
  show "isolateChange objects False (st, pg) =
       (st\<lparr> isolateMode := False \<rparr>,
        pg\<lparr> nodes := map (\<lambda>n. n\<lparr> node_is_dim := False \<rparr>) (nodes pg),
            edge_lines := map (\<lambda>l. l\<lparr> edge_is_dim := False \<rparr>) (edge_lines pg) \<rparr>)"
    by (rule isolateChange_off)
  show "selected (fst (isolateChange objects False (st, pg))) = selected st"
    by (simp add: isolateChange_off)
  show "\<forall>n \<in> set (nodes (snd (isolateChange objects False (st, pg)))). \<not> node_is_dim n"
    by (simp add: isolateChange_off)
  show "\<forall>l \<in> set (edge_lines (snd (isolateChange objects False (st, pg)))). \<not> edge_is_dim l"
    by (simp add: isolateChange_off)
qed

theorem isolation_dimming_witness:
  "node_is_dim (nodes (applyIsolateMode demo_edges
       (initial_state\<lparr> selected := Some ''a'', isolateMode := True \<rparr>) demo_page) ! 2)
   \<and> \<not> node_is_dim (nodes (applyIsolateMode demo_edges
       (initial_state\<lparr> selected := Some ''a'', isolateMode := True \<rparr>) demo_page) ! 1)
   \<and> \<not> edge_is_dim (edge_lines (applyIsolateMode demo_edges
       (initial_state\<lparr> selected := Some ''a'', isolateMode := True \<rparr>) demo_page) ! 0)
   \<and> edge_is_dim (edge_lines (applyIsolateMode demo_edges
       (initial_state\<lparr> selected := Some ''a'', isolateMode := True \<rparr>) demo_page) ! 1)
   \<and> \<not> node_is_dim (nodes (applyIsolateMode demo_edges
       (initial_state\<lparr> selected := Some ''a'' \<rparr>) demo_page) ! 2)
   \<and> selected (fst (isolateChange [] False
       (initial_state\<lparr> selected := Some ''a'', isolateMode := True \<rparr>, demo_page))) = Some ''a''"
proof -
  have nb: "getNeighborKeys demo_edges ''a'' = {''a'', ''b''}"
    by (auto simp: getNeighborKeys_def demo_edges_def)
  have on: "isolateMode (initial_state\<lparr> selected := Some ''a'', isolateMode := True \<rparr>)
            \<and> selected (initial_state\<lparr> selected := Some ''a'', isolateMode := True \<rparr>) = Some ''a''
            \<and> ''a'' \<noteq> []"
    by simp
  have off: "\<not> isolateMode (initial_state\<lparr> selected := Some ''a'' \<rparr>)
             \<or> \<not> truthy (selected (initial_state\<lparr> selected := Some ''a'' \<rparr>))"
    by (simp add: initial_state_def)
  have len: "2 < length (nodes demo_page)" "1 < length (nodes demo_page)"
            "0 < length (edge_lines demo_page)" "1 < length (edge_lines demo_page)"
    by (simp_all add: demo_page_def)
  note t = isolation_dimming [of "initial_state\<lparr> selected := Some ''a'', isolateMode := True \<rparr>"
             demo_edges demo_page "''a''" None "[]"]
  have n2: "node_is_dim (nodes (applyIsolateMode demo_edges
       (initial_state\<lparr> selected := Some ''a'', isolateMode := True \<rparr>) demo_page) ! 2)"
    using t on len(1) nb by (simp add: demo_page_def)
  have n1: "\<not> node_is_dim (nodes (applyIsolateMode demo_edges
       (initial_state\<lparr> selected := Some ''a'', isolateMode := True \<rparr>) demo_page) ! 1)"
    using t on len(2) nb by (simp add: demo_page_def)
  have e0: "\<not> edge_is_dim (edge_lines (applyIsolateMode demo_edges
       (initial_state\<lparr> selected := Some ''a'', isolateMode := True \<rparr>) demo_page) ! 0)"
    using t on len(3) nb by (simp add: demo_page_def)
  have e1: "edge_is_dim (edge_lines (applyIsolateMode demo_edges
       (initial_state\<lparr> selected := Some ''a'', isolateMode := True \<rparr>) demo_page) ! 1)"
    using t on len(4) nb by (simp add: demo_page_def)
  have m2: "nodes (applyIsolateMode demo_edges (initial_state\<lparr> selected := Some ''a'' \<rparr>) demo_page) ! 2
              \<in> set (nodes (applyIsolateMode demo_edges (initial_state\<lparr> selected := Some ''a'' \<rparr>) demo_page))"
    by (simp add: applyIsolateMode_def initial_state_def demo_page_def)
  have f2: "\<not> node_is_dim (nodes (applyIsolateMode demo_edges
       (initial_state\<lparr> selected := Some ''a'' \<rparr>) demo_page) ! 2)"
    using isolation_dimming [of "initial_state\<lparr> selected := Some ''a'' \<rparr>" demo_edges demo_page "''a''" None "[]"]
          off m2 by blast
  have s: "selected (fst (isolateChange [] False
       (initial_state\<lparr> selected := Some ''a'', isolateMode := True \<rparr>, demo_page))) = Some ''a''"
    using t by simp
  show ?thesis
    using n2 n1 e0 e1 f2 s by blast
qed


text \<open>
  The claim as first stated takes a node to be selected whenever the selected key is not
  \<^verbatim>\<open>null\<close>. That fails for a table whose key is the empty string: after it is clicked
  and the isolate checkbox is checked, the table \<^verbatim>\<open>b\<close> is not among the neighbour keys
  of the selected key, yet its node is not dimmed.
\<close>

theorem isolation_dimming_counterexample:
  "isolateMode (fst (isolateChange blank_key_dataset True (selectObject blank_key_dataset (Some [])
       (initial_state, renderDiagram blank_key_dataset initial_state))))
   \<and> selected (fst (isolateChange blank_key_dataset True (selectObject blank_key_dataset (Some [])
       (initial_state, renderDiagram blank_key_dataset initial_state)))) = Some []
   \<and> nodes (snd (isolateChange blank_key_dataset True (selectObject blank_key_dataset (Some [])
       (initial_state, renderDiagram blank_key_dataset initial_state)))) ! 1
       = \<lparr> data_key = ''b'', translate = \<lparr> pos_x = 290, pos_y = 50 \<rparr>,
           rect_selected = False, node_is_dim = False \<rparr>
   \<and> ''b'' \<notin> getNeighborKeys (edges blank_key_dataset) []
   \<and> \<not> (node_is_dim (nodes (snd (isolateChange blank_key_dataset True
              (selectObject blank_key_dataset (Some [])
                 (initial_state, renderDiagram blank_key_dataset initial_state)))) ! 1)
          \<longleftrightarrow> ''b'' \<notin> getNeighborKeys (edges blank_key_dataset) [])"
  by code_simp

section \<open>The grid layout\<close>

lemma nodePos_loop_other:
  "k \<notin> obj_key ` set ts \<Longrightarrow> nodePos_loop ts i m k = m k"
  by (induction ts arbitrary: i m) auto

lemma nodePos_loop_last:
  "j < length ts \<Longrightarrow>
   (\<forall>j'. j < j' \<and> j' < length ts \<longrightarrow> obj_key (ts ! j') \<noteq> obj_key (ts ! j)) \<Longrightarrow>
   nodePos_loop ts i m (obj_key (ts ! j)) = Some (gridPos (i + j))"
proof (induction ts arbitrary: i m j)
  case Nil
  then show ?case by simp
next
  case (Cons t ts)
  show ?case
  proof (cases j)
    case 0
    have "obj_key t \<notin> obj_key ` set ts"
    proof
      assume "obj_key t \<in> obj_key ` set ts"
      then obtain n where "n < length ts" and "obj_key (ts ! n) = obj_key t"
        by (auto simp: in_set_conv_nth)
      with Cons.prems(2) [rule_format, of "Suc n"] 0 show False by simp
    qed
    with 0 show ?thesis by (simp add: nodePos_loop_other)
  next
    case (Suc n)
    have "n < length ts" using Cons.prems(1) Suc by simp
    moreover have "\<forall>j'. n < j' \<and> j' < length ts \<longrightarrow> obj_key (ts ! j') \<noteq> obj_key (ts ! n)"
    proof (intro allI impI)
      fix j' assume "n < j' \<and> j' < length ts"
      with Cons.prems(2) [rule_format, of "Suc j'"] Suc
      show "obj_key (ts ! j') \<noteq> obj_key (ts ! n)" by simp
    qed
    ultimately have "nodePos_loop ts (Suc i) (m(obj_key t \<mapsto> gridPos i)) (obj_key (ts ! n))
                       = Some (gridPos (Suc i + n))"
      by (rule Cons.IH)
    with Suc show ?thesis by simp
  qed
qed

lemma nodePos_nth:
  assumes "distinct (map obj_key (tables objects))" and "i < length (tables objects)"
  shows "nodePos objects (obj_key (tables objects ! i)) = Some (gridPos i)"
proof -
  have "\<forall>j'. i < j' \<and> j' < length (tables objects) \<longrightarrow>
          obj_key (tables objects ! j') \<noteq> obj_key (tables objects ! i)"
    using assms by (auto simp: distinct_conv_nth)
  with assms(2) show ?thesis
    unfolding nodePos_def using nodePos_loop_last [of i "tables objects" 0 Map.empty] by simp
qed

lemma nodePos_loop_keys:
  "map obj_key ts = map obj_key ts' \<Longrightarrow> nodePos_loop ts i m = nodePos_loop ts' i m"
proof (induction ts arbitrary: ts' i m)
  case Nil
  then show ?case by simp
next
  case (Cons t ts)
  then obtain t' us where us: "ts' = t' # us" and key: "obj_key t' = obj_key t"
    and rest: "map obj_key ts = map obj_key us"
    by (cases ts') auto
  have "nodePos_loop ts (Suc i) (m(obj_key t \<mapsto> gridPos i))
          = nodePos_loop us (Suc i) (m(obj_key t \<mapsto> gridPos i))"
    using rest by (rule Cons.IH)
  then show ?case by (simp add: us key)
qed

lemma nodePos_loop_defined:
  "k \<in> obj_key ` set ts \<Longrightarrow> nodePos_loop ts i m k \<noteq> None"
proof (induction ts arbitrary: i m)
  case Nil
  then show ?case by simp
next
  case (Cons a ts)
  show ?case
  proof (cases "k \<in> obj_key ` set ts")
    case True
    then show ?thesis using Cons.IH by simp
  next
    case False
    then have "k = obj_key a" using Cons.prems by auto
    with False show ?thesis by (simp add: nodePos_loop_other)
  qed
qed

lemma nodePos_defined:
  "t \<in> set (tables objects) \<Longrightarrow> nodePos objects (obj_key t) \<noteq> None"
  by (simp add: nodePos_def nodePos_loop_defined)

lemma gridPos_eq:
  "gridPos i = \<lparr> pos_x = int (i mod 6) * (200 + 40) + 50, pos_y = int (i div 6) * 160 + 50 \<rparr>"
  by (simp add: gridPos_def COL_COUNT_def NODE_W_def NODE_PAD_def ROW_HEIGHT_def Let_def)

lemma applyIsolateMode_nodes:
  "map data_key (nodes (applyIsolateMode es st pg)) = map data_key (nodes pg)
   \<and> map translate (nodes (applyIsolateMode es st pg)) = map translate (nodes pg)"
  by (cases "selected st")
     (simp_all add: applyIsolateMode_def dimNodes_map Let_def comp_def)

lemma renderNode_tables:
  "concat (map (renderNode (nodePos objects) st) (tables objects))
     = map (\<lambda>t. \<lparr> data_key = obj_key t, translate = the (nodePos objects (obj_key t)),
                     rect_selected = (selected st = Some (obj_key t)), node_is_dim = False \<rparr>)
         (tables objects)"
proof -
  have "\<And>ts. set ts \<subseteq> set (tables objects) \<Longrightarrow>
          concat (map (renderNode (nodePos objects) st) ts)
            = map (\<lambda>t. \<lparr> data_key = obj_key t, translate = the (nodePos objects (obj_key t)),
                     rect_selected = (selected st = Some (obj_key t)), node_is_dim = False \<rparr>) ts"
  proof -
    fix ts
    show "set ts \<subseteq> set (tables objects) \<Longrightarrow>
          concat (map (renderNode (nodePos objects) st) ts)
            = map (\<lambda>t. \<lparr> data_key = obj_key t, translate = the (nodePos objects (obj_key t)),
                     rect_selected = (selected st = Some (obj_key t)), node_is_dim = False \<rparr>) ts"
    proof (induction ts)
      case Nil
      then show ?case by simp
    next
      case (Cons t ts)
      then have "nodePos objects (obj_key t) \<noteq> None"
        by (simp add: nodePos_defined)
      then obtain p where "nodePos objects (obj_key t) = Some p" by auto
      then show ?case using Cons by (simp add: renderNode_def)
    qed
  qed
  then show ?thesis by simp
qed

lemma renderDiagram_node:
  assumes "i < length (tables objects)"
  shows "data_key (nodes (renderDiagram objects st) ! i) = obj_key (tables objects ! i)"
    and "translate (nodes (renderDiagram objects st) ! i)
           = the (nodePos objects (obj_key (tables objects ! i)))"
proof -
  let ?pg = "\<lparr> nodes = concat (map (renderNode (nodePos objects) st) (tables objects)),
                 edge_lines = concat (map (renderEdge (nodePos objects)) (edges objects)) \<rparr>"
  have k: "map data_key (nodes (renderDiagram objects st)) = map obj_key (tables objects)"
    unfolding renderDiagram_def
    by (simp add: applyIsolateMode_nodes updateEdgeVisibility_def renderNode_tables comp_def)
  have t: "map translate (nodes (renderDiagram objects st))
             = map (\<lambda>t. the (nodePos objects (obj_key t))) (tables objects)"
    unfolding renderDiagram_def
    by (simp add: applyIsolateMode_nodes updateEdgeVisibility_def renderNode_tables comp_def)
  have len: "length (nodes (renderDiagram objects st)) = length (tables objects)"
    using k by (metis length_map)
  show "data_key (nodes (renderDiagram objects st) ! i) = obj_key (tables objects ! i)"
    using k assms len by (metis nth_map)
  show "translate (nodes (renderDiagram objects st) ! i)
           = the (nodePos objects (obj_key (tables objects ! i)))"
    using t assms len by (metis (no_types, lifting) nth_map)
qed

lemma nodePos_loop_zip:
  "nodePos_loop ts i m =
     m ++ map_of (rev (zip (map obj_key ts) (map gridPos [i..<i + length ts])))"
proof (induction ts arbitrary: i m)
  case Nil
  then show ?case by simp
next
  case (Cons t ts)
  have "i < i + length (t # ts)" by simp
  then have "[i..<i + length (t # ts)] = i # [Suc i..<i + length (t # ts)]"
    by (rule upt_conv_Cons)
  then have u: "[i..<i + length (t # ts)] = i # [Suc i..<Suc i + length ts]"
    by simp
  have "nodePos_loop (t # ts) i m =
          (m(obj_key t \<mapsto> gridPos i))
            ++ map_of (rev (zip (map obj_key ts) (map gridPos [Suc i..<Suc i + length ts])))"
    by (simp only: nodePos_loop.simps Cons.IH)
  also have "\<dots> = m ++ map_of (rev (zip (map obj_key (t # ts))
                                        (map gridPos [i..<i + length (t # ts)])))"
    unfolding u by (simp add: map_of_append)
  finally show ?case .
qed

lemma nodePos_zip:
  "nodePos objects =
     map_of (rev (zip (map obj_key (tables objects))
                      (map (\<lambda>i. \<lparr> pos_x = int (i mod 6) * (200 + 40) + 50,
                                   pos_y = int (i div 6) * 160 + 50 \<rparr>)
                         [0..<length (tables objects)])))"
  using nodePos_loop_zip [of "tables objects" 0 Map.empty]
  by (simp add: nodePos_def gridPos_eq [abs_def])

text \<open>
  Claim C7. For every dataset, the loop stores for the table at position \<open>i\<close> of the
  table list, under its key, the position \<open>x = (i mod 6) * (200 + 40) + 50\<close>,
  \<open>y = (i div 6) * 160 + 50\<close>; as in any map, a later entry replaces an earlier one
  with the same key. Keys identify objects, so the keys of the tables are pairwise
  distinct: then the table at position \<open>i\<close> has that position in \<^verbatim>\<open>nodePos\<close>, and
  \<^verbatim>\<open>renderDiagram\<close> draws its node, the \<open>i\<close>-th one, there. The positions depend on
  nothing but the sequence of table keys: two datasets with the same sequence get the
  same \<^verbatim>\<open>nodePos\<close>.
\<close>

theorem grid_layout:
  assumes "distinct (map obj_key (tables objects))" and "i < length (tables objects)"
  shows "nodePos objects (obj_key (tables objects ! i))
           = Some \<lparr> pos_x = int (i mod 6) * (200 + 40) + 50, pos_y = int (i div 6) * 160 + 50 \<rparr>
       \<and> data_key (nodes (renderDiagram objects st) ! i) = obj_key (tables objects ! i)
       \<and> translate (nodes (renderDiagram objects st) ! i)
           = \<lparr> pos_x = int (i mod 6) * (200 + 40) + 50, pos_y = int (i div 6) * 160 + 50 \<rparr>
       \<and> (map obj_key (tables objects') = map obj_key (tables objects) \<longrightarrow>
            nodePos objects' = nodePos objects)
       \<and> nodePos objects =
           map_of (rev (zip (map obj_key (tables objects))
                            (map (\<lambda>i. \<lparr> pos_x = int (i mod 6) * (200 + 40) + 50,
                                         pos_y = int (i div 6) * 160 + 50 \<rparr>)
                               [0..<length (tables objects)])))"
proof (intro conjI impI)
  show "nodePos objects =
           map_of (rev (zip (map obj_key (tables objects))
                            (map (\<lambda>i. \<lparr> pos_x = int (i mod 6) * (200 + 40) + 50,
                                         pos_y = int (i div 6) * 160 + 50 \<rparr>)
                               [0..<length (tables objects)])))"
    by (rule nodePos_zip)
  show p: "nodePos objects (obj_key (tables objects ! i))
           = Some \<lparr> pos_x = int (i mod 6) * (200 + 40) + 50, pos_y = int (i div 6) * 160 + 50 \<rparr>"
    using nodePos_nth [OF assms] by (simp only: gridPos_eq)
  show "data_key (nodes (renderDiagram objects st) ! i) = obj_key (tables objects ! i)"
    using assms(2) by (rule renderDiagram_node(1))
  show "translate (nodes (renderDiagram objects st) ! i)
           = \<lparr> pos_x = int (i mod 6) * (200 + 40) + 50, pos_y = int (i div 6) * 160 + 50 \<rparr>"
    using renderDiagram_node(2) [OF assms(2), of st] p by simp
  show "nodePos objects' = nodePos objects"
    if "map obj_key (tables objects') = map obj_key (tables objects)"
    unfolding nodePos_def using that by (rule nodePos_loop_keys)
qed

theorem grid_layout_witness:
  "nodePos eight_tables ''t7'' = Some \<lparr> pos_x = 290, pos_y = 210 \<rparr>
   \<and> nodePos eight_tables ''t5'' = Some \<lparr> pos_x = 1250, pos_y = 50 \<rparr>
   \<and> nodePos [clients_table, locations_table None] ''table_locations''
       = Some \<lparr> pos_x = 290, pos_y = 50 \<rparr>
   \<and> translate (nodes (renderDiagram eight_tables initial_state) ! 7)
       = \<lparr> pos_x = 290, pos_y = 210 \<rparr>
   \<and> nodePos [clients_table, locations_table (Some [])]
       = nodePos [clients_table, locations_table None]"
proof -
  have d8: "distinct (map obj_key (tables eight_tables))"
    by (simp add: tables_def eight_tables_def)
  have l8: "7 < length (tables eight_tables)" "5 < length (tables eight_tables)"
    by (simp_all add: tables_def eight_tables_def)
  have d2: "distinct (map obj_key (tables [clients_table, locations_table None]))"
    by (simp add: tables_def clients_table_def locations_table_def)
  have l2: "1 < length (tables [clients_table, locations_table None])"
    by (simp add: tables_def clients_table_def locations_table_def)
  have same: "map obj_key (tables [clients_table, locations_table (Some [])])
                = map obj_key (tables [clients_table, locations_table None])"
    by (simp add: tables_def clients_table_def locations_table_def)
  have a: "nodePos eight_tables ''t7'' = Some \<lparr> pos_x = 290, pos_y = 210 \<rparr>"
    using grid_layout [OF d8 l8(1), THEN conjunct1]
    by (simp add: tables_def eight_tables_def)
  have b: "nodePos eight_tables ''t5'' = Some \<lparr> pos_x = 1250, pos_y = 50 \<rparr>"
    using grid_layout [OF d8 l8(2), THEN conjunct1]
    by (simp add: tables_def eight_tables_def)
  have c: "nodePos [clients_table, locations_table None] ''table_locations''
       = Some \<lparr> pos_x = 290, pos_y = 50 \<rparr>"
    using grid_layout [OF d2 l2, THEN conjunct1]
    by (simp add: tables_def clients_table_def locations_table_def)
  have d: "translate (nodes (renderDiagram eight_tables initial_state) ! 7)
       = \<lparr> pos_x = 290, pos_y = 210 \<rparr>"
    using grid_layout [OF d8 l8(1), of initial_state] by simp
  have e: "nodePos [clients_table, locations_table (Some [])]
       = nodePos [clients_table, locations_table None]"
    using grid_layout [OF d2 l2, of _ "[clients_table, locations_table (Some [])]"] same
    by blast
  show ?thesis using a b c d e by blast
qed

section \<open>Selecting and deselecting\<close>

text \<open>
  Claim C8. \<^verbatim>\<open>selectObject\<close> sets the selected key to its argument and changes no other
  field of the state. Selecting nothing is what the Escape key does: its handler sets the
  selected key and the hovered key to \<^verbatim>\<open>null\<close>. Both leave the edge visibility mode, the
  isolate flag, pan, zoom and the view as they are. (No call of \<^verbatim>\<open>selectObject\<close> in the
  source passes \<^verbatim>\<open>null\<close>; the Escape key is the only way to deselect.)
\<close>

theorem select_frame:
  "fst (selectObject objects k (st, pg)) = st\<lparr> selected := k \<rparr>
   \<and> selected (fst (selectObject objects k (st, pg))) = k
   \<and> hovered (fst (selectObject objects k (st, pg))) = hovered st
   \<and> showEdges (fst (selectObject objects k (st, pg))) = showEdges st
   \<and> isolateMode (fst (selectObject objects k (st, pg))) = isolateMode st
   \<and> pan (fst (selectObject objects k (st, pg))) = pan st
   \<and> zoom (fst (selectObject objects k (st, pg))) = zoom st
   \<and> view (fst (selectObject objects k (st, pg))) = view st
   \<and> fst (keydown objects ''Escape'' (st, pg)) = st\<lparr> selected := None, hovered := None \<rparr>
   \<and> selected (fst (keydown objects ''Escape'' (st, pg))) = None
   \<and> hovered (fst (keydown objects ''Escape'' (st, pg))) = None
   \<and> showEdges (fst (keydown objects ''Escape'' (st, pg))) = showEdges st
   \<and> isolateMode (fst (keydown objects ''Escape'' (st, pg))) = isolateMode st
   \<and> pan (fst (keydown objects ''Escape'' (st, pg))) = pan st
   \<and> zoom (fst (keydown objects ''Escape'' (st, pg))) = zoom st
   \<and> view (fst (keydown objects ''Escape'' (st, pg))) = view st"
proof -
  have s: "fst (selectObject objects k (st, pg)) = st\<lparr> selected := k \<rparr>"
    by (simp add: selectObject_def Let_def)
  have e: "fst (keydown objects ''Escape'' (st, pg)) = st\<lparr> selected := None, hovered := None \<rparr>"
    by (simp add: keydown_def Let_def)
  show ?thesis
    unfolding s e by simp
qed

section \<open>The startup guard\<close>

lemma startup_array:
  "map_of ps ''objects'' = Some (JArr entries) \<Longrightarrow>
     startup (JObj ps) =
       (if \<exists>e \<in> set entries. e = JNull \<or> e = JUndefined then UncaughtTypeError else LookupsBuilt)"
proof -
  have r: "\<And>e. readThrows e \<longleftrightarrow> e = JNull \<or> e = JUndefined"
  proof -
    fix e show "readThrows e \<longleftrightarrow> e = JNull \<or> e = JUndefined" by (cases e) simp_all
  qed
  assume "map_of ps ''objects'' = Some (JArr entries)"
  then show ?thesis
    by (simp add: startup_def startupGuard_def list_ex_iff r)
qed

lemma startup_config:
  "startup schema = ConfigError msg \<longleftrightarrow> startupGuard schema = Refused msg"
proof (cases "startupGuard schema")
  case (Refused m)
  then show ?thesis by (simp add: startup_def)
next
  case Proceeds
  then show ?thesis
    by (cases "js_get schema ''objects''") (simp_all add: startup_def)
qed

text \<open>
  Claim C9, as the code has it. The program logs an error with \<^verbatim>\<open>console.error\<close> and
  returns before anything is built exactly when \<^verbatim>\<open>window.SCHEMA\<close> is absent (or any other
  falsy value) or its \<^verbatim>\<open>objects\<close> property is not an array. That is the only check:
  no other case ends with that error. In every other case the guard is passed and the
  two lookups are built next, whatever properties the entries have; only an entry that
  is \<^verbatim>\<open>null\<close> or \<^verbatim>\<open>undefined\<close> stops that, with a \<^verbatim>\<open>TypeError\<close> that nothing catches.
\<close>

theorem startup_guard:
  "startupGuard JUndefined = Refused ''SCHEMA not found. Make sure data.js loads before app.js.''
   \<and> startupGuard JNull = Refused ''SCHEMA not found. Make sure data.js loads before app.js.''
   \<and> (startupGuard schema = Proceeds \<longleftrightarrow>
        (\<exists>ps entries. schema = JObj ps \<and> map_of ps ''objects'' = Some (JArr entries)))
   \<and> (startupGuard schema \<noteq> Proceeds \<longleftrightarrow>
        startupGuard schema = Refused ''SCHEMA not found. Make sure data.js loads before app.js.'')
   \<and> startupGuard (JObj [(''objects'', JArr entries)]) = Proceeds
   \<and> (startup schema = ConfigError msg \<longleftrightarrow> startupGuard schema = Refused msg)
   \<and> (map_of qs ''objects'' = Some (JArr entries) \<longrightarrow>
        startup (JObj qs) =
          (if \<exists>e \<in> set entries. e = JNull \<or> e = JUndefined
           then UncaughtTypeError else LookupsBuilt))"
proof (intro conjI impI)
  show "startupGuard JUndefined = Refused ''SCHEMA not found. Make sure data.js loads before app.js.''"
    by (simp add: startupGuard_def)
  show "startupGuard JNull = Refused ''SCHEMA not found. Make sure data.js loads before app.js.''"
    by (simp add: startupGuard_def)
  show "startupGuard schema = Proceeds \<longleftrightarrow>
        (\<exists>ps entries. schema = JObj ps \<and> map_of ps ''objects'' = Some (JArr entries))"
  proof (cases schema)
    case (JObj ps)
    show ?thesis
    proof (cases "map_of ps ''objects''")
      case None
      with JObj show ?thesis by (simp add: startupGuard_def)
    next
      case (Some v)
      with JObj show ?thesis by (cases v) (simp_all add: startupGuard_def)
    qed
  qed (simp_all add: startupGuard_def)
  show "startupGuard schema \<noteq> Proceeds \<longleftrightarrow>
        startupGuard schema = Refused ''SCHEMA not found. Make sure data.js loads before app.js.''"
    by (simp add: startupGuard_def)
  show "startupGuard (JObj [(''objects'', JArr entries)]) = Proceeds"
    by (simp add: startupGuard_def)
  show "startup schema = ConfigError msg \<longleftrightarrow> startupGuard schema = Refused msg"
    by (rule startup_config)
  show "startup (JObj qs) =
          (if \<exists>e \<in> set entries. e = JNull \<or> e = JUndefined
           then UncaughtTypeError else LookupsBuilt)"
    if "map_of qs ''objects'' = Some (JArr entries)"
    using that by (rule startup_array)
qed

theorem startup_guard_witness:
  "startupGuard (JObj [(''objects'', JArr [])]) = Proceeds
   \<and> startupGuard (JObj [(''objects'', JStr ''none'')])
       = Refused ''SCHEMA not found. Make sure data.js loads before app.js.''
   \<and> startupGuard (JObj [])
       = Refused ''SCHEMA not found. Make sure data.js loads before app.js.''
   \<and> startup (JObj [(''objects'', JArr [JObj [(''key'', JStr ''table_clients'')]])]) = LookupsBuilt
   \<and> startup (JObj [(''objects'', JArr [JNull])]) = UncaughtTypeError
   \<and> startup (JObj [])
       = ConfigError ''SCHEMA not found. Make sure data.js loads before app.js.''"
proof -
  have a: "startupGuard (JObj [(''objects'', JArr [])]) = Proceeds"
    using startup_guard [of "JObj [(''objects'', JArr [])]" "[]"] by blast
  have b: "startupGuard (JObj [(''objects'', JStr ''none'')])
       = Refused ''SCHEMA not found. Make sure data.js loads before app.js.''"
    using startup_guard [of "JObj [(''objects'', JStr ''none'')]" "[]"] by auto
  have c: "startupGuard (JObj [])
       = Refused ''SCHEMA not found. Make sure data.js loads before app.js.''"
    using startup_guard [of "JObj []" "[]"] by auto
  have m1: "map_of [(''objects'', JArr [JObj [(''key'', JStr ''table_clients'')]])] ''objects''
              = Some (JArr [JObj [(''key'', JStr ''table_clients'')]])"
    and m2: "map_of [(''objects'', JArr [JNull])] ''objects'' = Some (JArr [JNull])"
    by simp_all
  have d: "startup (JObj [(''objects'', JArr [JObj [(''key'', JStr ''table_clients'')]])]) = LookupsBuilt"
    using startup_guard [of _ "[JObj [(''key'', JStr ''table_clients'')]]" _
            "[(''objects'', JArr [JObj [(''key'', JStr ''table_clients'')]])]"] m1
    by simp
  have e: "startup (JObj [(''objects'', JArr [JNull])]) = UncaughtTypeError"
    using startup_guard [of _ "[JNull]" _ "[(''objects'', JArr [JNull])]"] m2
    by simp
  have f: "startup (JObj [])
       = ConfigError ''SCHEMA not found. Make sure data.js loads before app.js.''"
    using startup_guard [of "JObj []" "[]"
            "''SCHEMA not found. Make sure data.js loads before app.js.''"] c
    by blast
  show ?thesis using a b c d e f by blast
qed

text \<open>
  The claim as first stated also has the program refuse, with a configuration error, a
  dataset with an entry that lacks \<^verbatim>\<open>name\<close> or \<^verbatim>\<open>type\<close>. Here the only entry has a key
  and nothing else: the guard is passed, no error is reported and the lookups are built.
\<close>

theorem startup_guard_counterexample:
  "\<not> hasNameAndType (JObj [(''key'', JStr ''table_clients'')])
   \<and> startupGuard (JObj [(''objects'', JArr [JObj [(''key'', JStr ''table_clients'')]])]) = Proceeds
   \<and> startup (JObj [(''objects'', JArr [JObj [(''key'', JStr ''table_clients'')]])]) = LookupsBuilt"
  by (simp add: hasNameAndType_def startupGuard_def startup_def)

section \<open>Incoming references and the edge list\<close>

lemma byKey_loop_other:
  "k \<notin> fst ` set entries \<Longrightarrow> byKey_loop entries m k = m k"
  by (induction entries arbitrary: m) auto

lemma byKey_loop_distinct:
  "distinct (map fst entries) \<Longrightarrow> (k, v) \<in> set entries \<Longrightarrow> byKey_loop entries m k = Some v"
proof (induction entries arbitrary: m)
  case Nil
  then show ?case by simp
next
  case (Cons e entries)
  obtain k' v' where e: "e = (k', v')" by (cases e)
  show ?case
  proof (cases "(k, v) = (k', v')")
    case True
    then have "k \<notin> fst ` set entries" using Cons.prems(1) e by auto
    with True e show ?thesis by (simp add: byKey_loop_other)
  next
    case False
    then have "(k, v) \<in> set entries" using Cons.prems(2) e by auto
    moreover have "distinct (map fst entries)" using Cons.prems(1) by simp
    ultimately show ?thesis using Cons.IH e by simp
  qed
qed

lemma byKey_distinct:
  "distinct (map obj_key objects) \<Longrightarrow> ob \<in> set objects \<Longrightarrow> byKey objects (obj_key ob) = Some ob"
  unfolding byKey_def
  by (rule byKey_loop_distinct) (auto simp: comp_def)

lemma incomingColumns_acc:
  "incomingColumns n tbl cols refs =
     refs @ concat (map (\<lambda>col. case col_fk col of
                                   None \<Rightarrow> []
                                 | Some k \<Rightarrow> if fk_table k = n
                                             then [\<lparr> ref_table = obj_name tbl, ref_column = col_name col \<rparr>]
                                             else []) cols)"
  by (induction cols arbitrary: refs) (simp_all split: option.splits)

lemma incomingTables_acc:
  "incomingTables n tbls refs =
     refs @ concat (map (\<lambda>tbl. concat (map (\<lambda>col. case col_fk col of
                                   None \<Rightarrow> []
                                 | Some k \<Rightarrow> if fk_table k = n
                                             then [\<lparr> ref_table = obj_name tbl, ref_column = col_name col \<rparr>]
                                             else []) (orEmpty (obj_columns tbl)))) tbls)"
  by (induction tbls arbitrary: refs)
     (simp_all add: incomingColumns_acc orEmpty_def split: option.splits)

lemma findIncomingReferences_concat:
  "findIncomingReferences objects n =
     concat (map (\<lambda>tbl. concat (map (\<lambda>col. case col_fk col of
                                   None \<Rightarrow> []
                                 | Some k \<Rightarrow> if fk_table k = n
                                             then [\<lparr> ref_table = obj_name tbl, ref_column = col_name col \<rparr>]
                                             else []) (orEmpty (obj_columns tbl)))) (tables objects))"
  by (simp add: findIncomingReferences_def incomingTables_acc tablesByType_eq_tables)

lemma concat_map_filter_concat:
  "concat (map g (filter P (concat (map f xs))))
     = concat (map (\<lambda>x. concat (map g (filter P (f x)))) xs)"
  by (induction xs) simp_all

lemma column_reference:
  assumes keys: "distinct (map obj_key objects)"
    and T: "T \<in> set (tables objects)"
    and uniq: "\<forall>ob \<in> set (tables objects). obj_name ob = obj_name T \<longrightarrow> ob = T"
    and t: "t \<in> set (tables objects)"
  shows "concat (map (\<lambda>e. case byKey objects (e_from e) of
                             None \<Rightarrow> []
                           | Some src \<Rightarrow> [\<lparr> ref_table = obj_name src, ref_column = e_label e \<rparr>])
            (filter (\<lambda>e. e_to e = obj_key T)
               (case col_fk c of
                  None \<Rightarrow> []
                | Some k \<Rightarrow>
                    (case List.find (\<lambda>ob. obj_type ob = ''table'' \<and> obj_name ob = fk_table k) objects of
                       None \<Rightarrow> []
                     | Some target \<Rightarrow>
                         [\<lparr> e_from = obj_key t, e_to = obj_key target, e_label = col_name c \<rparr>]))))
       = (case col_fk c of
            None \<Rightarrow> []
          | Some k \<Rightarrow> if fk_table k = obj_name T
                      then [\<lparr> ref_table = obj_name t, ref_column = col_name c \<rparr>]
                      else [])"
proof (cases "col_fk c")
  case None
  then show ?thesis by simp
next
  case (Some k)
  have Tobj: "T \<in> set objects" "obj_type T = ''table''"
    using T by (simp_all add: tables_def)
  have tobj: "t \<in> set objects"
    using t by (simp add: tables_def)
  have src: "byKey objects (obj_key t) = Some t"
    using keys tobj by (rule byKey_distinct)
  show ?thesis
  proof (cases "List.find (\<lambda>ob. obj_type ob = ''table'' \<and> obj_name ob = fk_table k) objects")
    case None
    then have "fk_table k \<noteq> obj_name T"
      using Tobj by (auto simp: find_None_iff)
    with None Some show ?thesis by simp
  next
    case found: (Some target)
    then have tg: "target \<in> set objects" "obj_type target = ''table''"
      "obj_name target = fk_table k"
      using find_Some_table [OF found] by simp_all
    then have tgt: "target \<in> set (tables objects)"
      by (simp add: tables_def)
    have "obj_key target = obj_key T \<longleftrightarrow> fk_table k = obj_name T"
    proof
      assume "obj_key target = obj_key T"
      then have "target = T"
        using keys tg(1) Tobj(1) by (metis distinct_map inj_on_def)
      then show "fk_table k = obj_name T" using tg(3) by simp
    next
      assume "fk_table k = obj_name T"
      then have "target = T" using uniq tgt tg(3) by simp
      then show "obj_key target = obj_key T" by simp
    qed
    with found Some src show ?thesis by simp
  qed
qed

text \<open>
  Claim C10. Keys identify objects, so the keys of the dataset are pairwise distinct.
  Let \<open>T\<close> be a table whose name no other table has. Then \<^verbatim>\<open>findIncomingReferences\<close>,
  called with the name of \<open>T\<close>, returns what the edge list gives: the edges whose
  \<^verbatim>\<open>to\<close> is the key of \<open>T\<close>, in order, each read as the name of the table whose key is
  the edge's \<^verbatim>\<open>from\<close> and the edge's label.
\<close>

theorem incoming_references_from_edges:
  assumes "distinct (map obj_key objects)"
    and "T \<in> set (tables objects)"
    and "\<forall>ob \<in> set (tables objects). obj_name ob = obj_name T \<longrightarrow> ob = T"
  shows "findIncomingReferences objects (obj_name T) = referencesFromEdges objects (obj_key T)"
proof -
  have "referencesFromEdges objects (obj_key T)
          = concat (map (\<lambda>t. concat (map (\<lambda>c.
              concat (map (\<lambda>e. case byKey objects (e_from e) of
                             None \<Rightarrow> []
                           | Some src \<Rightarrow> [\<lparr> ref_table = obj_name src, ref_column = e_label e \<rparr>])
                (filter (\<lambda>e. e_to e = obj_key T)
                   (case col_fk c of
                      None \<Rightarrow> []
                    | Some k \<Rightarrow>
                        (case List.find (\<lambda>ob. obj_type ob = ''table'' \<and> obj_name ob = fk_table k) objects of
                           None \<Rightarrow> []
                         | Some target \<Rightarrow>
                             [\<lparr> e_from = obj_key t, e_to = obj_key target, e_label = col_name c \<rparr>])))))
              (orEmpty (obj_columns t)))) (tables objects))"
    unfolding referencesFromEdges_def edges_concat
    by (simp only: concat_map_filter_concat)
  also have "\<dots> = concat (map (\<lambda>t. concat (map (\<lambda>c.
              (case col_fk c of
                 None \<Rightarrow> []
               | Some k \<Rightarrow> if fk_table k = obj_name T
                           then [\<lparr> ref_table = obj_name t, ref_column = col_name c \<rparr>]
                           else []))
              (orEmpty (obj_columns t)))) (tables objects))"
    by (rule arg_cong [where f = concat], rule map_cong, rule refl)
       (simp only: column_reference [OF assms])
  finally show ?thesis
    by (simp only: findIncomingReferences_concat)
qed

theorem incoming_references_from_edges_witness:
  "findIncomingReferences [users_table, orders_table] ''users''
     = [\<lparr> ref_table = ''orders'', ref_column = ''created_by'' \<rparr>,
        \<lparr> ref_table = ''orders'', ref_column = ''approved_by'' \<rparr>]
   \<and> referencesFromEdges [users_table, orders_table] ''table_users''
     = [\<lparr> ref_table = ''orders'', ref_column = ''created_by'' \<rparr>,
        \<lparr> ref_table = ''orders'', ref_column = ''approved_by'' \<rparr>]"
proof -
  have d: "distinct (map obj_key [users_table, orders_table])"
    by (simp add: users_table_def orders_table_def)
  have T: "users_table \<in> set (tables [users_table, orders_table])"
    by (simp add: tables_def users_table_def)
  have u: "\<forall>ob \<in> set (tables [users_table, orders_table]).
             obj_name ob = obj_name users_table \<longrightarrow> ob = users_table"
    by (simp add: tables_def users_table_def orders_table_def)
  have n: "obj_name users_table = ''users''" and k: "obj_key users_table = ''table_users''"
    by (simp_all add: users_table_def)
  have f: "findIncomingReferences [users_table, orders_table] ''users''
     = [\<lparr> ref_table = ''orders'', ref_column = ''created_by'' \<rparr>,
        \<lparr> ref_table = ''orders'', ref_column = ''approved_by'' \<rparr>]"
    by (simp add: findIncomingReferences_concat tables_def users_table_def orders_table_def
          orEmpty_def)
  have r: "referencesFromEdges [users_table, orders_table] ''table_users''
             = findIncomingReferences [users_table, orders_table] ''users''"
    using incoming_references_from_edges [OF d T u] by (simp only: n k)
  show ?thesis using f r by simp
qed

section \<open>Cycling the edge mode, hovering and switching the view\<close>

lemma next_mode:
  "[''focus'', ''all'', ''off''] ! nat ((indexOf [''focus'', ''all'', ''off''] s + 1) mod 3) =
     (if s = ''focus'' then ''all'' else if s = ''all'' then ''off'' else ''focus'')"
proof (cases "s = ''focus''")
  case True
  then show ?thesis by simp
next
  case nf: False
  show ?thesis
  proof (cases "s = ''all''")
    case True
    then show ?thesis by simp
  next
    case na: False
    show ?thesis
    proof (cases "s = ''off''")
      case True
      then show ?thesis by simp
    next
      case False
      with nf na have "indexOf [''focus'', ''all'', ''off''] s = -1"
        by (auto simp: Let_def)
      with nf na show ?thesis by simp
    qed
  qed
qed

lemma next_mode_length:
  "[''focus'', ''all'', ''off''] !
     nat ((indexOf [''focus'', ''all'', ''off''] s + 1) mod int (length [''focus'', ''all'', ''off'']))
   = (if s = ''focus'' then ''all'' else if s = ''all'' then ''off'' else ''focus'')"
proof -
  have "int (length [''focus'', ''all'', ''off'']) = 3" by simp
  then show ?thesis by (simp only: next_mode)
qed

lemma cycle_fst:
  "fst (cycleEdgeMode w) =
     (fst w)\<lparr> showEdges := (if showEdges (fst w) = ''focus'' then ''all''
                              else if showEdges (fst w) = ''all'' then ''off''
                              else ''focus'') \<rparr>"
  by (simp only: cycleEdgeMode_def Let_def next_mode_length fst_conv)

lemma cycle_showEdges:
  "showEdges (fst (cycleEdgeMode (st, pg))) =
     (if showEdges st = ''focus'' then ''all''
      else if showEdges st = ''all'' then ''off''
      else ''focus'')"
  by (simp only: cycle_fst fst_conv state.select_convs state.update_convs) simp

text \<open>
  \<^verbatim>\<open>cycleEdgeMode\<close> goes from \<^verbatim>\<open>focus\<close> to \<^verbatim>\<open>all\<close>, from \<^verbatim>\<open>all\<close> to \<^verbatim>\<open>off\<close> and
  from anything else to \<^verbatim>\<open>focus\<close>; from one of the three modes, three steps lead back
  to the same state. Selection, hover and the isolate flag are not touched.
\<close>

theorem edge_mode_cycle:
  "showEdges (fst (cycleEdgeMode (st, pg))) =
     (if showEdges st = ''focus'' then ''all''
      else if showEdges st = ''all'' then ''off''
      else ''focus'')
   \<and> (showEdges st \<in> {''focus'', ''all'', ''off''} \<longrightarrow>
        fst (cycleEdgeMode (cycleEdgeMode (cycleEdgeMode (st, pg)))) = st)
   \<and> selected (fst (cycleEdgeMode (st, pg))) = selected st
   \<and> hovered (fst (cycleEdgeMode (st, pg))) = hovered st
   \<and> isolateMode (fst (cycleEdgeMode (st, pg))) = isolateMode st"
proof (intro conjI impI)
  show "showEdges (fst (cycleEdgeMode (st, pg))) =
     (if showEdges st = ''focus'' then ''all''
      else if showEdges st = ''all'' then ''off''
      else ''focus'')"
    by (rule cycle_showEdges)
  show "fst (cycleEdgeMode (cycleEdgeMode (cycleEdgeMode (st, pg)))) = st"
    if mode: "showEdges st \<in> {''focus'', ''all'', ''off''}"
  proof -
    consider "showEdges st = ''focus''" | "showEdges st = ''all''" | "showEdges st = ''off''"
      using mode by auto
    then show ?thesis
    proof cases
      case 1
      have "st\<lparr> showEdges := ''focus'' \<rparr> = st" using 1 by (cases st) simp
      then show ?thesis using 1 by (simp add: cycle_fst)
    next
      case 2
      have "st\<lparr> showEdges := ''all'' \<rparr> = st" using 2 by (cases st) simp
      then show ?thesis using 2 by (simp add: cycle_fst)
    next
      case 3
      have "st\<lparr> showEdges := ''off'' \<rparr> = st" using 3 by (cases st) simp
      then show ?thesis using 3 by (simp add: cycle_fst)
    qed
  qed
  show "selected (fst (cycleEdgeMode (st, pg))) = selected st"
    by (simp add: cycle_fst)
  show "hovered (fst (cycleEdgeMode (st, pg))) = hovered st"
    by (simp add: cycle_fst)
  show "isolateMode (fst (cycleEdgeMode (st, pg))) = isolateMode st"
    by (simp add: cycle_fst)
qed

theorem edge_mode_cycle_witness:
  "fst (cycleEdgeMode (cycleEdgeMode (cycleEdgeMode (initial_state, demo_page)))) = initial_state
   \<and> showEdges (fst (cycleEdgeMode (initial_state, demo_page))) = ''all''"
proof -
  have m: "showEdges initial_state \<in> {''focus'', ''all'', ''off''}"
    by (simp add: initial_state_def)
  have f: "showEdges initial_state = ''focus''"
    by (simp add: initial_state_def)
  show ?thesis
    using edge_mode_cycle [of initial_state demo_page] m f by simp
qed

text \<open>
  \<^verbatim>\<open>hoverObject\<close> sets the hovered key and nothing else, so the selection stays;
  \<^verbatim>\<open>setView\<close> sets the view and keeps both the selection and the hover.
\<close>

theorem hover_and_view_keep_selection:
  "fst (hoverObject k (st, pg)) = st\<lparr> hovered := k \<rparr>
   \<and> selected (fst (hoverObject k (st, pg))) = selected st
   \<and> fst (setView objects v (st, pg)) = st\<lparr> view := v \<rparr>
   \<and> selected (fst (setView objects v (st, pg))) = selected st
   \<and> hovered (fst (setView objects v (st, pg))) = hovered st"
  by (simp add: hoverObject_def setView_def Let_def)

section \<open>A key that is the empty string\<close>

text \<open>
  The tests by truthiness make a difference for one key only. When the selected key is
  the empty string, the active key is the hovered key and \<^verbatim>\<open>applyIsolateMode\<close> dims
  nothing, as when nothing is selected.
\<close>

theorem empty_key_counts_as_unselected:
  assumes "selected st = Some []"
  shows "activeKey st = hovered st
       \<and> (\<forall>n \<in> set (nodes (applyIsolateMode es st pg)). \<not> node_is_dim n)
       \<and> (\<forall>l \<in> set (edge_lines (applyIsolateMode es st pg)). \<not> edge_is_dim l)"
proof -
  have f: "\<not> truthy (selected st)"
    using assms by (simp add: truthy_def)
  then have off: "\<not> isolateMode st \<or> \<not> truthy (selected st)" by simp
  show ?thesis
    using f by (simp add: activeKey_def isolate_off [OF off])
qed

theorem empty_key_counts_as_unselected_witness:
  "activeKey (fst (hoverObject (Some ''c'') (selectObject blank_key_dataset (Some [])
       (initial_state, renderDiagram blank_key_dataset initial_state)))) = Some ''c''"
proof -
  have s: "selected (fst (hoverObject (Some ''c'') (selectObject blank_key_dataset (Some [])
       (initial_state, renderDiagram blank_key_dataset initial_state)))) = Some []"
    by (simp add: hoverObject_def selectObject_def Let_def)
  have h: "hovered (fst (hoverObject (Some ''c'') (selectObject blank_key_dataset (Some [])
       (initial_state, renderDiagram blank_key_dataset initial_state)))) = Some ''c''"
    by (simp add: hoverObject_def selectObject_def Let_def)
  show ?thesis
    using empty_key_counts_as_unselected [OF s] h by simp
qed

end
